theory Spec2Isabelle
  imports Complex_Main "HOL-Library.Sublist" "HOL-Library.Word"
begin

section \<open>get-image-glsl: a shallow embedding of main.cpp\<close>

text \<open>
  The program compiles and links a fragment shader, binds its uniforms from a JSON file,
  renders a quad and saves one frame as a PNG. The embedding follows \<open>src/main.cpp\<close>
  function by function. Everything the program does to the outside (OpenGL calls, files,
  the window, standard output) is recorded as a list of events; every way of leaving the
  process is an \<open>outcome\<close>.
\<close>

subsection \<open>Strings\<close>

text \<open>
  \<open>std::string::find\<close>: the position of the first occurrence, \<open>None\<close> for \<open>npos\<close>.
\<close>

fun str_find :: "string \<Rightarrow> string \<Rightarrow> nat option" where
  "str_find [] t = (if t = [] then Some 0 else None)"
| "str_find (c # s) t =
     (if take (length t) (c # s) = t then Some 0 else map_option Suc (str_find s t))"

fun str_find_char :: "string \<Rightarrow> char \<Rightarrow> nat option" where
  "str_find_char [] x = None"
| "str_find_char (c # s) x = (if c = x then Some 0 else map_option Suc (str_find_char s x))"

text \<open>
  \<open>operator<<\<close> on an \<open>int\<close>: the decimal digits, with a minus sign for a negative number.
\<close>

definition digit_char :: "nat \<Rightarrow> char" where
  "digit_char n = ''0123456789'' ! n"

fun show_nat :: "nat \<Rightarrow> string" where
  "show_nat n = (if n < 10 then [digit_char n] else show_nat (n div 10) @ [digit_char (n mod 10)])"

declare show_nat.simps [simp del]

definition show_int :: "int \<Rightarrow> string" where
  "show_int i = (if i < 0 then CHR ''-'' # show_nat (nat (- i)) else show_nat (nat i))"

text \<open>
  \<open>atoi\<close>: white space is skipped, then an optional sign and the longest run of decimal
  digits are read; text with no digits there gives 0. The result is an \<open>int\<close> of the C
  library; a number outside its range is undefined behaviour there and is not cut off here.
\<close>

definition isspace :: "char \<Rightarrow> bool" where
  "isspace c = (c \<in> set [CHR '' '', CHR 0x09, CHR 0x0A, CHR 0x0B, CHR 0x0C, CHR 0x0D])"

definition isdigit :: "char \<Rightarrow> bool" where
  "isdigit c = (c \<in> set ''0123456789'')"

definition digit_val :: "char \<Rightarrow> int" where
  "digit_val c = int (of_char c) - 48"

fun digits_val :: "int \<Rightarrow> string \<Rightarrow> int" where
  "digits_val acc [] = acc"
| "digits_val acc (c # cs) = (if isdigit c then digits_val (acc * 10 + digit_val c) cs else acc)"

definition atoi :: "string \<Rightarrow> int" where
  "atoi s =
     (case dropWhile isspace s of
        [] \<Rightarrow> 0
      | c # cs \<Rightarrow>
          if c = CHR ''-'' then - digits_val 0 cs
          else if c = CHR ''+'' then digits_val 0 cs
          else digits_val 0 (c # cs))"

subsection \<open>JSON values\<close>

text \<open>
  Modelled from the spec: the type \<open>json\<close> comes from json.hpp (nlohmann::json), which is
  not among the sources. The specification describes the uniform description as a keyed
  mapping from a uniform name to a record with a function name and a sequence of numbers.
  An object is such a mapping (a \<open>std::map\<close> in the library): it holds one value for a
  key. Here it is a list of pairs read through \<open>map_of\<close>, so the first pair of a key is
  the value of that key. The operations below are the ones main.cpp calls.
\<close>

datatype json =
    JNull
  | JBool bool
  | JNumber rat
  | JString string
  | JArray "json list"
  | JObject "(string \<times> json) list"

text \<open>\<open>j.count(key)\<close>: 1 when an object has the key, 0 otherwise and for every other value.\<close>

fun json_count :: "json \<Rightarrow> string \<Rightarrow> nat" where
  "json_count (JObject kvs) k = (if map_of kvs k = None then 0 else 1)"
| "json_count j k = 0"

text \<open>\<open>j.find(key)\<close>: \<open>None\<close> stands for \<open>end()\<close>.\<close>

fun json_find :: "json \<Rightarrow> string \<Rightarrow> json option" where
  "json_find (JObject kvs) k = map_of kvs k"
| "json_find j k = None"

text \<open>
  \<open>j[key] = v\<close>: an object gets or replaces the key, \<open>null\<close> becomes an object, every
  other value throws (\<open>None\<close>).
\<close>

fun json_set :: "json \<Rightarrow> string \<Rightarrow> json \<Rightarrow> json option" where
  "json_set (JObject kvs) k v = Some (JObject ((k, v) # filter (\<lambda>kv. fst kv \<noteq> k) kvs))"
| "json_set JNull k v = Some (JObject [(k, v)])"
| "json_set j k v = None"

text \<open>The conversion of a value to \<open>std::string\<close> and to a number; \<open>None\<close> when it throws.\<close>

fun json_string :: "json \<Rightarrow> string option" where
  "json_string (JString s) = Some s"
| "json_string j = None"

fun json_number :: "json \<Rightarrow> rat option" where
  "json_number (JNumber x) = Some x"
| "json_number j = None"

subsection \<open>OpenGL calls, events and outcomes\<close>

datatype shader_kind = GL_FRAGMENT_SHADER | GL_VERTEX_SHADER

datatype api = API_OPENGL | API_OPENGL_ES

type_synonym byte = "8 word"

datatype gl_call =
    GlCreateShader shader_kind
  | GlShaderSource shader_kind string
  | GlCompileShader shader_kind
  | GlGetShaderiv_COMPILE_STATUS shader_kind
  | GlGetShaderiv_INFO_LOG_LENGTH shader_kind
  | GlGetShaderInfoLog shader_kind
  | GlCreateProgram
  | GlProgramParameteri_BINARY_RETRIEVABLE_HINT
  | GlAttachShader shader_kind
  | GlLinkProgram
  | GlGetProgramiv_LINK_STATUS
  | GlGetProgramiv_INFO_LOG_LENGTH
  | GlGetProgramInfoLog
  | GlGetIntegerv_NUM_PROGRAM_BINARY_FORMATS
  | GlGetProgramiv_PROGRAM_BINARY_LENGTH
  | GlGetProgramBinary
  | GlGetAttribLocation string
  | GlGenVertexArrays
  | GlBindVertexArray
  | GlGenBuffers
  | GlBindBuffer
  | GlBufferData "int list"
  | GlEnableVertexAttribArray int
  | GlVertexAttribPointer int
  | GlUseProgram
  | GlGetProgramiv_ACTIVE_UNIFORMS
  | GlGetProgramiv_ACTIVE_UNIFORM_MAX_LENGTH
  | GlGetActiveUniform nat
  | GlGetUniformLocation string
  | GlUniform string int "rat list"
  | GlUniformv string int nat "rat list"
  | GlViewport int int
  | GlClearColor
  | GlClear
  | GlDrawArrays nat nat
  | GlFlush
  | GlReadPixels nat nat

text \<open>
  One constructor for each call of \<open>crash\<close> and \<open>errcode_crash\<close> in main.cpp, with the
  argument of its format string, and one for an error that \<open>GL_SAFECALL\<close> or
  \<open>GL_CHECKERR\<close> finds.
\<close>

datatype crash =
    Missing_value string
  | Invalid_option string
  | Unexpected_extra_argument string
  | Missing_fragment_shader_argument
  | Invalid_API_value
  | File_not_found string
  | No_end_of_line
  | No_version_directive
  | Unsupported_version string
  | Missing_JSON_entry string
  | More_than_one_JSON_entry string
  | No_func_entry string
  | No_args_entry string
  | Cannot_find_uniform string
  | Unsupported_uniform_func string
  | Malloc_failed
  | Fragment_shader_compilation_failed string
  | Vertex_shader_compilation_failed string
  | GlCreateProgram_failed
  | Program_linking_failed
  | Cannot_find_vertexPosition
  | Lodepng_error nat
  | GL_error gl_call

datatype event =
    Usage string
  | Crash crash
  | Stdout string
  | Stderr string
  | Probe_file string
  | Read_file string
  | Dump_file string string
  | Lodepng_encode string "byte list" nat nat
  | GL gl_call
  | Context_init
  | Context_swap
  | Context_set_key_callback
  | Context_terminate

text \<open>
  How a process ends. \<open>Uncaught_exception\<close> is an exception of the JSON library that
  nothing catches, \<open>Undefined_behaviour\<close> a step the C++ standard gives no meaning to, and
  \<open>Out_of_fuel\<close> says that the render loop was still running when the number of iterations
  that were given to it was used up.
\<close>

datatype outcome = Exit int | Uncaught_exception | Undefined_behaviour | Out_of_fuel

text \<open>
  A piece of the program is the list of its events and either the outcome that ended the
  process inside it (\<open>Inl\<close>) or the value it returned (\<open>Inr\<close>).
\<close>

type_synonym 'a proc = "event list \<times> (outcome + 'a)"

definition ret :: "'a \<Rightarrow> 'a proc" where
  "ret x = ([], Inr x)"

definition emit :: "event \<Rightarrow> unit proc" where
  "emit e = ([e], Inr ())"

definition stop :: "outcome \<Rightarrow> 'a proc" where
  "stop out = ([], Inl out)"

definition seq :: "'a proc \<Rightarrow> ('a \<Rightarrow> 'b proc) \<Rightarrow> 'b proc" where
  "seq m f =
     (case snd m of
        Inl out \<Rightarrow> (fst m, Inl out)
      | Inr a \<Rightarrow> (fst m @ fst (f a), snd (f a)))"

fun seqs :: "unit proc list \<Rightarrow> unit proc" where
  "seqs [] = ret ()"
| "seqs (m # ms) = seq m (\<lambda>_. seqs ms)"

definition EXIT_SUCCESS :: int where
  "EXIT_SUCCESS = 0"

definition EXIT_FAILURE :: int where
  "EXIT_FAILURE = 1"

definition COMPILE_ERROR_EXIT_CODE :: int where
  "COMPILE_ERROR_EXIT_CODE = 101"

definition LINK_ERROR_EXIT_CODE :: int where
  "LINK_ERROR_EXIT_CODE = 102"

definition exit :: "int \<Rightarrow> 'a proc" where
  "exit code = stop (Exit code)"

text \<open>
  Modelled from the spec: \<open>crash\<close> and \<open>errcode_crash\<close> are macros of common.h, which is
  not among the sources. The specification gives an unrecoverable error the generic exit
  code 1 and lets the compile and link failures end the process with the code they pass;
  the message is kept as the event \<open>Crash\<close>.
\<close>

definition errcode_crash :: "int \<Rightarrow> crash \<Rightarrow> 'a proc" where
  "errcode_crash code c = ([Crash c], Inl (Exit code))"

definition crash :: "crash \<Rightarrow> 'a proc" where
  "crash c = errcode_crash EXIT_FAILURE c"

subsection \<open>Parameters (main.cpp, lines 20 to 33)\<close>

text \<open>
  Modelled from the spec: the struct \<open>Params\<close> and the enumeration of the APIs are
  declared in common.h, which is not among the sources. The fields are the run parameters
  of the specification, under the names and with the types main.cpp uses for them. The
  field \<open>output\<close> is \<open>outputFilename\<close> here, \<open>output\<close> being a keyword of Isabelle.
  \<open>defaultParams\<close> sets every field but \<open>API\<close>.
\<close>

record Params =
  width :: int
  height :: int
  shaderVersion :: int
  API :: api
  APIVersion :: int
  fragFilename :: string
  vertFilename :: string
  outputFilename :: string
  exitCompile :: bool
  exitLinking :: bool
  persist :: bool
  delay :: int
  binOut :: string

definition defaultParams :: "Params \<Rightarrow> Params" where
  "defaultParams params =
     params\<lparr>width := 256, height := 256, shaderVersion := 0, APIVersion := 0,
       fragFilename := [], vertFilename := [], outputFilename := ''output.png'',
       exitCompile := False, exitLinking := False, persist := False, delay := 5,
       binOut := []\<rparr>"

subsection \<open>The world outside the program\<close>

text \<open>
  What the files, the JSON parser, the window system, the OpenGL driver and the PNG encoder
  answer in one run. \<open>gl_error c\<close> says that \<open>glGetError\<close> reports an error after the
  call \<open>c\<close>; \<open>has_glUniform_ui\<close> says that the program was built without
  \<open>GL_VERSION_ES_CM_1_0\<close>.
\<close>

record world =
  files :: "string \<Rightarrow> string option"
  json_parse :: "string \<Rightarrow> json option"
  negotiated_API :: api
  negotiated_APIVersion :: int
  gl_error :: "gl_call \<Rightarrow> bool"
  compile_status :: "shader_kind \<Rightarrow> bool"
  shader_info_log :: "shader_kind \<Rightarrow> string"
  program_handle :: nat
  link_status :: bool
  program_info_log :: string
  attrib_location :: "string \<Rightarrow> int"
  active_uniforms :: int
  active_uniform_name :: "nat \<Rightarrow> string"
  uniform_location :: "string \<Rightarrow> int"
  num_program_binary_formats :: int
  program_binary :: string
  malloc_fails :: bool
  read_pixels :: "nat \<Rightarrow> nat \<Rightarrow> byte list"
  png_error :: nat
  has_glUniform_ui :: bool

text \<open>
  Modelled from the spec: \<open>GL_SAFECALL\<close> and \<open>GL_CHECKERR\<close> are macros of common.h, which
  is not among the sources. By the specification every backend call succeeds or the process
  exits: \<open>GL_CHECKERR\<close> asks \<open>glGetError\<close> and crashes when one of the calls made since the
  last check has raised an error, and \<open>GL_SAFECALL\<close> makes the call and checks at once.
\<close>

definition GL_CHECKERR :: "world \<Rightarrow> gl_call list \<Rightarrow> gl_call \<Rightarrow> unit proc" where
  "GL_CHECKERR w pending c = (if list_ex (gl_error w) pending then crash (GL_error c) else ret ())"

definition GL_SAFECALL :: "world \<Rightarrow> gl_call \<Rightarrow> unit proc" where
  "GL_SAFECALL w c = seq (emit (GL c)) (\<lambda>_. GL_CHECKERR w [c] c)"

subsection \<open>usage and setParams (main.cpp, lines 37 to 134)\<close>

text \<open>The usage text is one event, with the program name it is printed for.\<close>

definition usage :: "string \<Rightarrow> unit proc" where
  "usage name = emit (Usage name)"

text \<open>
  The loop over \<open>argv[1..argc-1]\<close>. \<open>arg.compare(0, 2, "--") == 0\<close> says that \<open>arg\<close> starts
  with two dashes; \<open>(i + 1) >= argc\<close> says that no argument follows.
\<close>

fun setParams_loop :: "string \<Rightarrow> Params \<Rightarrow> string list \<Rightarrow> Params proc" where
  "setParams_loop name params [] = ret params"
| "setParams_loop name params (arg # rest) =
     (if take 2 arg = ''--'' then
        (if arg = ''--exit-compile'' then setParams_loop name (params\<lparr>exitCompile := True\<rparr>) rest
         else if arg = ''--exit-linking'' then setParams_loop name (params\<lparr>exitLinking := True\<rparr>) rest
         else if arg = ''--persist'' then setParams_loop name (params\<lparr>persist := True\<rparr>) rest
         else if arg = ''--delay'' then
           (case rest of
              [] \<Rightarrow> seq (usage name) (\<lambda>_. crash (Missing_value ''--delay''))
            | v # rest' \<Rightarrow> setParams_loop name (params\<lparr>delay := atoi v\<rparr>) rest')
         else if arg = ''--output'' then
           (case rest of
              [] \<Rightarrow> seq (usage name) (\<lambda>_. crash (Missing_value ''--output''))
            | v # rest' \<Rightarrow> setParams_loop name (params\<lparr>outputFilename := v\<rparr>) rest')
         else if arg = ''--resolution'' then
           (case rest of
              v1 # v2 # rest' \<Rightarrow>
                setParams_loop name (params\<lparr>width := atoi v1, height := atoi v2\<rparr>) rest'
            | _ \<Rightarrow> seq (usage name) (\<lambda>_. crash (Missing_value ''--resolution'')))
         else if arg = ''--vertex'' then
           (case rest of
              [] \<Rightarrow> seq (usage name) (\<lambda>_. crash (Missing_value ''--vertex''))
            | v # rest' \<Rightarrow> setParams_loop name (params\<lparr>vertFilename := v\<rparr>) rest')
         else if arg = ''--dump_bin'' then
           (case rest of
              [] \<Rightarrow> seq (usage name) (\<lambda>_. crash (Missing_value ''--dump_bin''))
            | v # rest' \<Rightarrow> setParams_loop name (params\<lparr>binOut := v\<rparr>) rest')
         else seq (usage name) (\<lambda>_. crash (Invalid_option arg)))
      else if fragFilename params = [] then setParams_loop name (params\<lparr>fragFilename := arg\<rparr>) rest
      else seq (usage name) (\<lambda>_. crash (Unexpected_extra_argument arg)))"

text \<open>
  \<open>argv\<close> is the program name and the arguments. With an empty \<open>argv\<close> the source would
  print \<open>argv[0]\<close>, a null pointer.
\<close>

definition setParams :: "Params \<Rightarrow> string list \<Rightarrow> Params proc" where
  "setParams params argv =
     (case argv of
        [] \<Rightarrow> stop Undefined_behaviour
      | name # args \<Rightarrow>
          seq (setParams_loop name (defaultParams params) args) (\<lambda>params.
            if fragFilename params = [] then
              seq (usage name) (\<lambda>_. crash Missing_fragment_shader_argument)
            else ret params))"

text \<open>
  The positional arguments of a command line, for the statements about \<open>setParams\<close>: the
  arguments that neither start with two dashes nor are the value of an option before them.
\<close>

definition option_arity :: "string \<Rightarrow> nat" where
  "option_arity arg =
     (if arg \<in> set [''--delay'', ''--output'', ''--vertex'', ''--dump_bin''] then 1
      else if arg = ''--resolution'' then 2
      else 0)"

fun positionals :: "string list \<Rightarrow> string list" where
  "positionals [] = []"
| "positionals (arg # rest) =
     (if take 2 arg = ''--'' then positionals (drop (option_arity arg) rest)
      else arg # positionals rest)"

text \<open>
  Two notions for the statements about \<open>setParams\<close>: the usage text followed by a crash with
  the generic error code, and what one option does to the loop.
\<close>

definition usage_exit :: "string \<Rightarrow> 'a proc \<Rightarrow> bool" where
  "usage_exit name r = (\<exists>c. r = ([Usage name, Crash c], Inl (Exit EXIT_FAILURE)))"

definition flag_step_to :: "string \<Rightarrow> Params \<Rightarrow> string \<Rightarrow> string list \<Rightarrow> bool" where
  "flag_step_to name params arg rest =
     (usage_exit name (setParams_loop name params (arg # rest))
      \<or> (\<exists>params'. fragFilename params' = fragFilename params
           \<and> setParams_loop name params (arg # rest) =
               setParams_loop name params' (drop (option_arity arg) rest)))"

subsection \<open>Files (main.cpp, lines 159 to 174)\<close>

definition isFile :: "world \<Rightarrow> string \<Rightarrow> bool proc" where
  "isFile w filename = seq (emit (Probe_file filename)) (\<lambda>_. ret (files w filename \<noteq> None))"

definition readFile :: "world \<Rightarrow> string \<Rightarrow> string proc" where
  "readFile w filename =
     seq (emit (Read_file filename)) (\<lambda>_.
       case files w filename of
         None \<Rightarrow> crash (File_not_found filename)
       | Some contents \<Rightarrow> ret contents)"

subsection \<open>getShaderVersion (main.cpp, lines 178 to 205)\<close>

definition getShaderVersion :: "string \<Rightarrow> crash + int" where
  "getShaderVersion fragContents =
     (case str_find_char fragContents CHR 0x0A of
        None \<Rightarrow> Inl No_end_of_line
      | Some pos \<Rightarrow>
          (let sub = take pos fragContents in
           if str_find sub ''#version'' = None then Inl No_version_directive
           else if str_find sub ''110'' \<noteq> None then Inr 110
           else if str_find sub ''120'' \<noteq> None then Inr 120
           else if str_find sub ''130'' \<noteq> None then Inr 130
           else if str_find sub ''140'' \<noteq> None then Inr 140
           else if str_find sub ''150'' \<noteq> None then Inr 150
           else if str_find sub ''330'' \<noteq> None then Inr 330
           else if str_find sub ''400'' \<noteq> None then Inr 400
           else if str_find sub ''410'' \<noteq> None then Inr 410
           else if str_find sub ''420'' \<noteq> None then Inr 420
           else if str_find sub ''430'' \<noteq> None then Inr 430
           else if str_find sub ''440'' \<noteq> None then Inr 440
           else if str_find sub ''450'' \<noteq> None then Inr 450
           else if str_find sub ''100'' \<noteq> None then Inr 100
           else if str_find sub ''300'' \<noteq> None then Inr 300
           else Inl (Unsupported_version (take 80 sub))))"

text \<open>
  The description of version detection in the specification: the first line is the text
  before the first newline, and the tokens are tried in a fixed order.
\<close>

definition version_tokens :: "(string \<times> int) list" where
  "version_tokens =
     [(''110'', 110), (''120'', 120), (''130'', 130), (''140'', 140), (''150'', 150),
      (''330'', 330), (''400'', 400), (''410'', 410), (''420'', 420), (''430'', 430),
      (''440'', 440), (''450'', 450), (''100'', 100), (''300'', 300)]"

definition first_line :: "string \<Rightarrow> string" where
  "first_line s = takeWhile (\<lambda>c. c \<noteq> CHR 0x0A) s"

definition detectVersion :: "string \<Rightarrow> crash + int" where
  "detectVersion s =
     (if CHR 0x0A \<notin> set s then Inl No_end_of_line
      else if \<not> sublist ''#version'' (first_line s) then Inl No_version_directive
      else (case find (\<lambda>tv. sublist (fst tv) (first_line s)) version_tokens of
              None \<Rightarrow> Inl (Unsupported_version (take 80 (first_line s)))
            | Some tv \<Rightarrow> Inr (snd tv)))"

subsection \<open>generateVertexShader (main.cpp, lines 209 to 235)\<close>

definition vertGenericContents :: string where
  "vertGenericContents =
     ''vec2 _GLF_vertexPosition;\<newline>'' @
     ''void main(void) {\<newline>'' @
     ''    gl_Position = vec4(_GLF_vertexPosition, 0.0, 1.0);\<newline>'' @
     ''}\<newline>''"

definition generateVertexShader :: "world \<Rightarrow> Params \<Rightarrow> string proc" where
  "generateVertexShader w params =
     (if vertFilename params \<noteq> [] then readFile w (vertFilename params)
      else
        ret ((''#version '' @ show_int (shaderVersion params)) @
             (if shaderVersion params = 300 then '' es'' @ ''\<newline>'' @ ''in ''
              else ''\<newline>'' @ ''attribute '') @
             vertGenericContents))"

subsection \<open>JSON uniforms (main.cpp, lines 241 to 417)\<close>

text \<open>
  The four default entries, in the key order of the \<open>std::map\<close> that holds them.
  \<open>float(params.width)\<close> is the width itself as long as a \<open>float\<close> holds it exactly.
\<close>

definition default_entry :: "string \<Rightarrow> rat list \<Rightarrow> json" where
  "default_entry func args = JObject [(''args'', JArray (map JNumber args)), (''func'', JString func)]"

definition defaults :: "Params \<Rightarrow> (string \<times> json) list" where
  "defaults params =
     [(''injectionSwitch'', default_entry ''glUniform2f'' [0, 1]),
      (''mouse'', default_entry ''glUniform2f'' [0, 0]),
      (''resolution'', default_entry ''glUniform2f'' [of_int (width params), of_int (height params)]),
      (''time'', default_entry ''glUniform1f'' [0])]"

fun set_missing :: "(string \<times> json) list \<Rightarrow> json \<Rightarrow> json option" where
  "set_missing [] j = Some j"
| "set_missing (kv # kvs) j =
     (if json_count j (fst kv) = 0 then
        (case json_set j (fst kv) (snd kv) of
           None \<Rightarrow> None
         | Some j' \<Rightarrow> set_missing kvs j')
      else set_missing kvs j)"

definition setJSONDefaultEntries :: "json \<Rightarrow> Params \<Rightarrow> json option" where
  "setJSONDefaultEntries j params = set_missing (defaults params) j"

text \<open>
  \<open>j[key]\<close> on an object that is not \<open>const\<close>: the value of the key, and \<open>null\<close> (which the
  library inserts) when the key is missing. The source reads it only after \<open>count\<close> or
  \<open>find\<close> has found the key.
\<close>

definition json_at :: "json \<Rightarrow> string \<Rightarrow> json" where
  "json_at j k = (case json_find j k of None \<Rightarrow> JNull | Some v \<Rightarrow> v)"

text \<open>
  \<open>args[0]\<close> to \<open>args[n - 1]\<close> as numbers. The library throws when \<open>args\<close> is not an array
  or an element is not a number; the source does not check, so that is \<open>None\<close> here, as
  is an array with fewer than \<open>n\<close> elements.
\<close>

definition json_args :: "json \<Rightarrow> nat \<Rightarrow> rat list option" where
  "json_args args n =
     (case args of
        JArray xs \<Rightarrow> (if n \<le> length xs then those (map json_number (take n xs)) else None)
      | _ \<Rightarrow> None)"

fun json_size :: "json \<Rightarrow> nat" where
  "json_size JNull = 0"
| "json_size (JArray xs) = length xs"
| "json_size (JObject kvs) = length kvs"
| "json_size j = 1"

text \<open>\<open>getArray\<close> (lines 271 to 278): \<open>j.size()\<close> elements, each read as a number.\<close>

definition getArray :: "json \<Rightarrow> rat list option" where
  "getArray j =
     (case j of
        JArray xs \<Rightarrow> those (map json_number xs)
      | _ \<Rightarrow> (if json_size j = 0 then Some [] else None))"

definition glUniform :: "string \<Rightarrow> int \<Rightarrow> json \<Rightarrow> nat \<Rightarrow> gl_call proc" where
  "glUniform func uniformLocation args n =
     (case json_args args n of
        None \<Rightarrow> stop Uncaught_exception
      | Some xs \<Rightarrow> seq (emit (GL (GlUniform func uniformLocation xs))) (\<lambda>_.
          ret (GlUniform func uniformLocation xs)))"

definition GLUNIFORM_ARRAYINIT :: "string \<Rightarrow> int \<Rightarrow> json \<Rightarrow> gl_call proc" where
  "GLUNIFORM_ARRAYINIT funcname uniformloc jsonarray =
     (case getArray jsonarray of
        None \<Rightarrow> stop Uncaught_exception
      | Some a \<Rightarrow>
          seq (emit (GL (GlUniformv funcname uniformloc (json_size jsonarray) a))) (\<lambda>_.
          ret (GlUniformv funcname uniformloc (json_size jsonarray) a)))"

text \<open>
  The chain of comparisons of lines 355 to 412. It returns the call it has made, which
  \<open>GL_CHECKERR\<close> checks after it.
\<close>

definition dispatch :: "world \<Rightarrow> string \<Rightarrow> int \<Rightarrow> json \<Rightarrow> gl_call proc" where
  "dispatch w uniformFunc uniformLocation args =
     (if uniformFunc = ''glUniform1f'' then glUniform uniformFunc uniformLocation args 1
      else if uniformFunc = ''glUniform2f'' then glUniform uniformFunc uniformLocation args 2
      else if uniformFunc = ''glUniform3f'' then glUniform uniformFunc uniformLocation args 3
      else if uniformFunc = ''glUniform4f'' then glUniform uniformFunc uniformLocation args 4
      else if uniformFunc = ''glUniform1i'' then glUniform uniformFunc uniformLocation args 1
      else if uniformFunc = ''glUniform2i'' then glUniform uniformFunc uniformLocation args 2
      else if uniformFunc = ''glUniform3i'' then glUniform uniformFunc uniformLocation args 3
      else if uniformFunc = ''glUniform4i'' then glUniform uniformFunc uniformLocation args 4
      else if has_glUniform_ui w \<and> uniformFunc = ''glUniform1ui'' then
        glUniform uniformFunc uniformLocation args 1
      else if has_glUniform_ui w \<and> uniformFunc = ''glUniform2ui'' then
        glUniform uniformFunc uniformLocation args 2
      else if has_glUniform_ui w \<and> uniformFunc = ''glUniform3ui'' then
        glUniform uniformFunc uniformLocation args 3
      else if has_glUniform_ui w \<and> uniformFunc = ''glUniform4ui'' then
        glUniform uniformFunc uniformLocation args 4
      else if uniformFunc = ''glUniform1fv'' then GLUNIFORM_ARRAYINIT uniformFunc uniformLocation args
      else if uniformFunc = ''glUniform2fv'' then GLUNIFORM_ARRAYINIT uniformFunc uniformLocation args
      else if uniformFunc = ''glUniform3fv'' then GLUNIFORM_ARRAYINIT uniformFunc uniformLocation args
      else if uniformFunc = ''glUniform4fv'' then GLUNIFORM_ARRAYINIT uniformFunc uniformLocation args
      else if uniformFunc = ''glUniform1iv'' then GLUNIFORM_ARRAYINIT uniformFunc uniformLocation args
      else if uniformFunc = ''glUniform2iv'' then GLUNIFORM_ARRAYINIT uniformFunc uniformLocation args
      else if uniformFunc = ''glUniform3iv'' then GLUNIFORM_ARRAYINIT uniformFunc uniformLocation args
      else if uniformFunc = ''glUniform4iv'' then GLUNIFORM_ARRAYINIT uniformFunc uniformLocation args
      else crash (Unsupported_uniform_func uniformFunc))"

text \<open>
  One pass of the loop of lines 317 to 414 for the uniform \<open>i\<close>. \<open>strchr\<close> cuts the name
  at its first bracket.
\<close>

definition setUniform :: "world \<Rightarrow> json \<Rightarrow> nat \<Rightarrow> unit proc" where
  "setUniform w j i =
     seq (GL_SAFECALL w (GlGetActiveUniform i)) (\<lambda>_.
       let uniformName = takeWhile (\<lambda>c. c \<noteq> CHR ''['') (active_uniform_name w i) in
       if json_count j uniformName = 0 then crash (Missing_JSON_entry uniformName)
       else if json_count j uniformName > 1 then crash (More_than_one_JSON_entry uniformName)
       else
         let uniformInfo = json_at j uniformName in
         if json_find uniformInfo ''func'' = None then crash (No_func_entry uniformName)
         else if json_find uniformInfo ''args'' = None then crash (No_args_entry uniformName)
         else
           seq (emit (GL (GlGetUniformLocation uniformName))) (\<lambda>_.
           seq (GL_CHECKERR w [GlGetUniformLocation uniformName]
                  (GlGetUniformLocation uniformName)) (\<lambda>_.
             let uniformLocation = uniform_location w uniformName in
             if uniformLocation = - 1 then crash (Cannot_find_uniform uniformName)
             else
               (case json_string (json_at uniformInfo ''func'') of
                  None \<Rightarrow> stop Uncaught_exception
                | Some uniformFunc \<Rightarrow>
                    seq (dispatch w uniformFunc uniformLocation (json_at uniformInfo ''args''))
                      (\<lambda>c. GL_CHECKERR w [c] c)))))"

function setUniforms_loop :: "world \<Rightarrow> json \<Rightarrow> int \<Rightarrow> int \<Rightarrow> unit proc" where
  "setUniforms_loop w j nbUniforms i =
     (if i < nbUniforms then
        seq (setUniform w j (nat i)) (\<lambda>_. setUniforms_loop w j nbUniforms (i + 1))
      else ret ())"
  by pat_completeness auto
termination
  by (relation "measure (\<lambda>(w, j, nbUniforms, i). nat (nbUniforms - i))") auto

declare setUniforms_loop.simps [simp del]

text \<open>
  \<open>jsonFilename.replace(jsonFilename.end()-4, jsonFilename.end(), "json")\<close>; a name with
  fewer than four characters has no such range.
\<close>

definition replace_extension :: "string \<Rightarrow> string option" where
  "replace_extension frag =
     (if length frag < 4 then None else Some (take (length frag - 4) frag @ ''json''))"

definition setUniformsJSON :: "world \<Rightarrow> Params \<Rightarrow> unit proc" where
  "setUniformsJSON w params =
     seq (GL_SAFECALL w GlGetProgramiv_ACTIVE_UNIFORMS) (\<lambda>_.
       let nbUniforms = active_uniforms w in
       if nbUniforms = 0 then ret ()
       else
         (case replace_extension (fragFilename params) of
            None \<Rightarrow> stop Undefined_behaviour
          | Some jsonFilename \<Rightarrow>
              seq (isFile w jsonFilename) (\<lambda>is_file.
              seq (if is_file then
                     seq (readFile w jsonFilename) (\<lambda>jsonContent.
                       case json_parse w jsonContent of
                         None \<Rightarrow> stop Uncaught_exception
                       | Some j \<Rightarrow> ret j)
                   else
                     seq (emit (Stderr (''Warning: file '' @ [CHR 0x27] @ jsonFilename @ [CHR 0x27] @
                            '' not found, will rely on default uniform values only\<newline>''))) (\<lambda>_.
                       case setJSONDefaultEntries (JObject []) params of
                         None \<Rightarrow> stop Uncaught_exception
                       | Some j \<Rightarrow> ret j)) (\<lambda>j.
              seq (GL_SAFECALL w GlGetProgramiv_ACTIVE_UNIFORM_MAX_LENGTH) (\<lambda>_.
                setUniforms_loop w j nbUniforms 0)))))"

subsection \<open>OpenGL set-up (main.cpp, lines 138 to 153 and 437 to 586)\<close>

text \<open>The division and the remainder of C, which round towards zero.\<close>

definition c_div :: "int \<Rightarrow> int \<Rightarrow> int" where
  "c_div a b = sgn a * sgn b * (\<bar>a\<bar> div \<bar>b\<bar>)"

definition c_mod :: "int \<Rightarrow> int \<Rightarrow> int" where
  "c_mod a b = a - b * c_div a b"

text \<open>
  \<open>printAPI\<close>; the \<open>default\<close> branch of its \<open>switch\<close> is for a value outside the
  enumeration, which \<open>api\<close> does not have.
\<close>

definition printAPI :: "Params \<Rightarrow> unit proc" where
  "printAPI params =
     seq (case API params of
            API_OPENGL \<Rightarrow> emit (Stdout ''OpenGL'')
          | API_OPENGL_ES \<Rightarrow> emit (Stdout ''OpenGLES'')) (\<lambda>_.
       let major = c_div (APIVersion params) 100;
           minor = c_div (c_mod (APIVersion params) 100) 10
       in emit (Stdout ('' '' @ show_int major @ ''.'' @ show_int minor)))"

definition supported :: "Params \<Rightarrow> bool" where
  "supported params =
     ((API params = API_OPENGL \<and> APIVersion params \<ge> 410) \<or>
      (API params = API_OPENGL_ES \<and> APIVersion params \<ge> 300))"

definition dumpBin :: "world \<Rightarrow> Params \<Rightarrow> unit proc" where
  "dumpBin w params =
     (if \<not> supported params then
        seqs [emit (Stdout (''Cannot dump binary:'' @ '' requires OpenGL >= 4.1 or OpenGLES >= 3.0,'' @
                '' current version is: '')),
              printAPI params,
              emit (Stdout ''\<newline>'')]
      else
        seq (GL_SAFECALL w GlGetIntegerv_NUM_PROGRAM_BINARY_FORMATS) (\<lambda>_.
          if num_program_binary_formats w \<le> 0 then
            emit (Stdout ''Cannot dump binary: driver supports zero binary format\<newline>'')
          else
            seq (GL_SAFECALL w GlGetProgramiv_PROGRAM_BINARY_LENGTH) (\<lambda>_.
              if malloc_fails w then crash Malloc_failed
              else
                seq (GL_SAFECALL w GlGetProgramBinary) (\<lambda>_.
                  emit (Dump_file (binOut params) (program_binary w))))))"

text \<open>
  \<open>printShaderError\<close> and \<open>printProgramError\<close> ask for the information log without a check
  and print it, with a newline, when it is not empty.
\<close>

definition printShaderError :: "world \<Rightarrow> shader_kind \<Rightarrow> unit proc" where
  "printShaderError w shader =
     seqs [emit (GL (GlGetShaderiv_INFO_LOG_LENGTH shader)),
           emit (GL (GlGetShaderInfoLog shader)),
           if length (shader_info_log w shader) > 0 then
             emit (Stdout (shader_info_log w shader @ ''\<newline>''))
           else ret ()]"

definition printProgramError :: "world \<Rightarrow> unit proc" where
  "printProgramError w =
     seqs [emit (GL GlGetProgramiv_INFO_LOG_LENGTH),
           emit (GL GlGetProgramInfoLog),
           if length (program_info_log w) > 0 then
             emit (Stdout (program_info_log w @ ''\<newline>''))
           else ret ()]"

definition vertices :: "int list" where
  "vertices = [- 1, - 1, - 1, 1, 1, - 1, 1, 1, - 1, 1, 1, - 1]"

text \<open>
  \<open>openglInit\<close>, statement by statement; a statement that ends the process ends the list.
\<close>

definition openglInit :: "world \<Rightarrow> Params \<Rightarrow> string \<Rightarrow> unit proc" where
  "openglInit w params fragContents =
     seq (seqs
       [emit (GL (GlCreateShader GL_FRAGMENT_SHADER)),
        GL_CHECKERR w [GlCreateShader GL_FRAGMENT_SHADER] (GlCreateShader GL_FRAGMENT_SHADER),
        GL_SAFECALL w (GlShaderSource GL_FRAGMENT_SHADER fragContents),
        GL_SAFECALL w (GlCompileShader GL_FRAGMENT_SHADER),
        GL_SAFECALL w (GlGetShaderiv_COMPILE_STATUS GL_FRAGMENT_SHADER),
        if \<not> compile_status w GL_FRAGMENT_SHADER then
          seq (printShaderError w GL_FRAGMENT_SHADER) (\<lambda>_.
            errcode_crash COMPILE_ERROR_EXIT_CODE
              (Fragment_shader_compilation_failed (fragFilename params)))
        else ret (),
        if exitCompile params then exit EXIT_SUCCESS else ret (),
        emit (GL (GlCreateShader GL_VERTEX_SHADER)),
        GL_CHECKERR w [GlCreateShader GL_VERTEX_SHADER] (GlCreateShader GL_VERTEX_SHADER)])
     (\<lambda>_. seq (generateVertexShader w params) (\<lambda>vertContents.
       let vertPosLocInt = attrib_location w ''_GLF_vertexPosition'' in
       seqs
       [GL_SAFECALL w (GlShaderSource GL_VERTEX_SHADER vertContents),
        GL_SAFECALL w (GlCompileShader GL_VERTEX_SHADER),
        GL_SAFECALL w (GlGetShaderiv_COMPILE_STATUS GL_VERTEX_SHADER),
        if \<not> compile_status w GL_VERTEX_SHADER then
          seq (printShaderError w GL_VERTEX_SHADER) (\<lambda>_.
            errcode_crash COMPILE_ERROR_EXIT_CODE
              (Vertex_shader_compilation_failed (fragFilename params)))
        else ret (),
        emit (GL GlCreateProgram),
        if supported params then
          seq (emit (GL GlProgramParameteri_BINARY_RETRIEVABLE_HINT)) (\<lambda>_.
            GL_CHECKERR w [GlCreateProgram, GlProgramParameteri_BINARY_RETRIEVABLE_HINT]
              GlProgramParameteri_BINARY_RETRIEVABLE_HINT)
        else ret (),
        GL_CHECKERR w [GlCreateProgram] GlCreateProgram,
        if program_handle w = 0 then crash GlCreateProgram_failed else ret (),
        GL_SAFECALL w (GlAttachShader GL_VERTEX_SHADER),
        GL_SAFECALL w (GlAttachShader GL_FRAGMENT_SHADER),
        GL_SAFECALL w GlLinkProgram,
        GL_SAFECALL w GlGetProgramiv_LINK_STATUS,
        if \<not> link_status w then
          seq (printProgramError w) (\<lambda>_.
            errcode_crash LINK_ERROR_EXIT_CODE Program_linking_failed)
        else ret (),
        if binOut params \<noteq> [] then dumpBin w params else ret (),
        if exitLinking params then exit EXIT_SUCCESS else ret (),
        emit (GL (GlGetAttribLocation ''_GLF_vertexPosition'')),
        GL_CHECKERR w [GlGetAttribLocation ''_GLF_vertexPosition'']
          (GlGetAttribLocation ''_GLF_vertexPosition''),
        if vertPosLocInt = - 1 then crash Cannot_find_vertexPosition else ret (),
        if API params = API_OPENGL_ES \<or> APIVersion params \<ge> 300 then
          seqs [GL_SAFECALL w GlGenVertexArrays, GL_SAFECALL w GlBindVertexArray]
        else ret (),
        GL_SAFECALL w GlGenBuffers,
        GL_SAFECALL w GlBindBuffer,
        GL_SAFECALL w (GlBufferData vertices),
        GL_SAFECALL w (GlEnableVertexAttribArray vertPosLocInt),
        GL_SAFECALL w (GlVertexAttribPointer vertPosLocInt),
        GL_SAFECALL w GlUseProgram,
        setUniformsJSON w params,
        GL_SAFECALL w (GlViewport (width params) (height params))]))"

subsection \<open>openglRender (main.cpp, lines 590 to 597)\<close>

definition openglRender :: "world \<Rightarrow> Params \<Rightarrow> unit proc" where
  "openglRender w params =
     seqs [GL_SAFECALL w GlClearColor,
           GL_SAFECALL w GlClear,
           GL_SAFECALL w (GlDrawArrays 0 3),
           GL_SAFECALL w (GlDrawArrays 3 3),
           GL_SAFECALL w GlFlush]"

subsection \<open>savePNG (main.cpp, lines 603 to 622)\<close>

type_synonym uint = "32 word"

definition CHANNELS :: uint where
  "CHANNELS = 4"

text \<open>
  A counter below a bound does not wrap when it is incremented; the two loops below end
  for that reason.
\<close>

lemma unat_succ_less: "(x :: 'a::len word) < y \<Longrightarrow> unat (x + 1) = unat x + 1"
proof -
  assume "x < y"
  then have "unat x < unat y" by (simp add: word_less_nat_alt)
  moreover have "unat y < 2 ^ LENGTH('a)" by (rule unsigned_less)
  ultimately have "unat x + 1 < 2 ^ LENGTH('a)" by linarith
  then show ?thesis by (simp add: unat_word_ariths)
qed

text \<open>
  The two loops of lines 614 to 617, with the arithmetic of \<open>unsigned int\<close>. An index
  outside a vector has no meaning in C++ and is \<open>None\<close> here.
\<close>

function flip_cols :: "uint \<Rightarrow> uint \<Rightarrow> uint \<Rightarrow> uint \<Rightarrow> byte list \<Rightarrow> byte list \<Rightarrow> byte list option" where
  "flip_cols uwidth uheight h col data flipped_data =
     (if col < uwidth * CHANNELS then
        (let dst = unat (h * uwidth * CHANNELS + col);
             src = unat ((uheight - h - 1) * uwidth * CHANNELS + col)
         in if dst < length flipped_data \<and> src < length data then
              flip_cols uwidth uheight h (col + 1) data (flipped_data[dst := data ! src])
            else None)
      else Some flipped_data)"
  by pat_completeness auto
termination
proof (relation "measure (\<lambda>(uwidth, uheight, h, col, data, flipped_data).
    unat (uwidth * CHANNELS) - unat col)")
  show "wf (measure (\<lambda>(uwidth, uheight, h, col, data, flipped_data).
    unat (uwidth * CHANNELS) - unat col))"
    by simp
next
  fix uwidth uheight h col :: uint and data flipped_data :: "byte list" and x xa
  assume "col < uwidth * CHANNELS"
  then have "unat col < unat (uwidth * CHANNELS)" and "unat (col + 1) = unat col + 1"
    by (simp_all add: word_less_nat_alt unat_succ_less)
  then show "((uwidth, uheight, h, col + 1, data, flipped_data [x := data ! xa]),
         uwidth, uheight, h, col, data, flipped_data)
        \<in> measure (\<lambda>(uwidth, uheight, h, col, data, flipped_data).
            unat (uwidth * CHANNELS) - unat col)"
    by simp
qed

declare flip_cols.simps [simp del]

function flip_rows :: "uint \<Rightarrow> uint \<Rightarrow> uint \<Rightarrow> byte list \<Rightarrow> byte list \<Rightarrow> byte list option" where
  "flip_rows uwidth uheight h data flipped_data =
     (if h < uheight then
        (case flip_cols uwidth uheight h 0 data flipped_data of
           None \<Rightarrow> None
         | Some flipped_data' \<Rightarrow> flip_rows uwidth uheight (h + 1) data flipped_data')
      else Some flipped_data)"
  by pat_completeness auto
termination
proof (relation "measure (\<lambda>(uwidth, uheight, h, data, flipped_data). unat uheight - unat h)")
  show "wf (measure (\<lambda>(uwidth, uheight, h, data, flipped_data). unat uheight - unat h))"
    by simp
next
  fix uwidth uheight h :: uint and data flipped_data x2 :: "byte list"
  assume "h < uheight"
  then have "unat h < unat uheight" and "unat (h + 1) = unat h + 1"
    by (simp_all add: word_less_nat_alt unat_succ_less)
  then show "((uwidth, uheight, h + 1, data, x2), uwidth, uheight, h, data, flipped_data)
        \<in> measure (\<lambda>(uwidth, uheight, h, data, flipped_data). unat uheight - unat h)"
    by simp
qed

declare flip_rows.simps [simp del]

text \<open>
  \<open>data\<close> is a vector of \<open>uwidth * uheight * CHANNELS\<close> zero bytes into which
  \<open>glReadPixels\<close> writes the pixels; more pixels than the vector holds overrun it.
\<close>

definition flip :: "uint \<Rightarrow> uint \<Rightarrow> byte list \<Rightarrow> byte list option" where
  "flip uwidth uheight data =
     flip_rows uwidth uheight 0 data (replicate (unat (uwidth * uheight * CHANNELS)) 0)"

definition savePNG :: "world \<Rightarrow> Params \<Rightarrow> unit proc" where
  "savePNG w params =
     (let uwidth = (word_of_int (width params) :: uint);
          uheight = (word_of_int (height params) :: uint);
          n = unat (uwidth * uheight * CHANNELS);
          pixels = read_pixels w (unat uwidth) (unat uheight)
      in seq (GL_SAFECALL w (GlReadPixels (unat uwidth) (unat uheight))) (\<lambda>_.
           if length pixels > n then stop Undefined_behaviour
           else
             (case flip uwidth uheight (pixels @ replicate (n - length pixels) 0) of
                None \<Rightarrow> stop Undefined_behaviour
              | Some flipped_data \<Rightarrow>
                  seq (emit (Lodepng_encode (outputFilename params) flipped_data
                         (unat uwidth) (unat uheight))) (\<lambda>_.
                    if png_error w \<noteq> 0 then crash (Lodepng_error (png_error w))
                    else ret ()))))"

subsection \<open>The window and the main loop (main.cpp, lines 628 to 663)\<close>

text \<open>
  Modelled from the spec: the window and context layer (openglcontext.h and the files
  behind it) is not among the sources. By the specification it initialises a drawable
  surface and reports the negotiated API and version back, and it gives a "keep looping"
  predicate, a "swap buffers" operation, a "wait for key then close" operation and a
  teardown. \<open>Context\<close> is any type \<open>'c\<close> here, with the three operations the loop uses as
  parameters; the API and the version are answers of the world.
\<close>

record 'c context_ops =
  contextKeepLooping :: "'c \<Rightarrow> bool"
  contextSwap :: "'c \<Rightarrow> 'c"
  contextSetKeyCallback :: "'c \<Rightarrow> 'c"

definition contextInitAndGetAPI :: "world \<Rightarrow> Params \<Rightarrow> Params proc" where
  "contextInitAndGetAPI w params =
     seq (emit Context_init) (\<lambda>_.
       ret (params\<lparr>API := negotiated_API w, APIVersion := negotiated_APIVersion w\<rparr>))"

text \<open>
  Modelled from the spec: a window whose third operation is the blocking "wait for key then
  close" of the specification. The state of the window is the sequence of answers that
  "keep looping" is going to give, one for each buffer swap; after the wait the window is
  closed.
\<close>

definition blocking_window :: "(nat \<Rightarrow> bool) context_ops" where
  "blocking_window =
     \<lparr>contextKeepLooping = (\<lambda>c. c 0),
      contextSwap = (\<lambda>c n. c (Suc n)),
      contextSetKeyCallback = (\<lambda>c n. False)\<rparr>"

definition INT_MAX :: int where
  "INT_MAX = 2147483647"

text \<open>
  The \<open>while\<close> loop of \<open>main\<close>, for at most the given number of iterations: with none
  left the outcome is \<open>Out_of_fuel\<close>. \<open>numFrames++\<close> at \<open>INT_MAX\<close> overflows an \<open>int\<close>.
\<close>

fun main_loop ::
  "nat \<Rightarrow> 'c context_ops \<Rightarrow> world \<Rightarrow> Params \<Rightarrow> 'c \<Rightarrow> int \<Rightarrow> bool \<Rightarrow> unit proc" where
  "main_loop 0 ops w params c numFrames saved = stop Out_of_fuel"
| "main_loop (Suc fuel) ops w params c numFrames saved =
     (if contextKeepLooping ops c then
        seq (openglRender w params) (\<lambda>_.
        seq (emit Context_swap) (\<lambda>_.
          if numFrames = INT_MAX then stop Undefined_behaviour
          else if numFrames + 1 = delay params \<and> \<not> saved then
            seq (savePNG w params) (\<lambda>_.
              if persist params then
                seq (emit (Stdout ''Press any key to close the window...\<newline>'')) (\<lambda>_.
                seq (emit Context_set_key_callback) (\<lambda>_.
                  main_loop fuel ops w params (contextSetKeyCallback ops (contextSwap ops c))
                    (numFrames + 1) True))
              else ret ())
          else main_loop fuel ops w params (contextSwap ops c) (numFrames + 1) saved))
      else ret ())"

definition lift_crash :: "crash + 'a \<Rightarrow> 'a proc" where
  "lift_crash r = (case r of Inl c \<Rightarrow> crash c | Inr x \<Rightarrow> ret x)"

text \<open>
  \<open>main\<close>, with the default-constructed \<open>Params\<close> object and the window as arguments. It
  always ends the process: by \<open>exit(EXIT_SUCCESS)\<close> when nothing else has.
\<close>

definition main :: "nat \<Rightarrow> 'c context_ops \<Rightarrow> world \<Rightarrow> 'c \<Rightarrow> Params \<Rightarrow> string list \<Rightarrow> unit proc" where
  "main fuel ops w c params argv =
     seq (setParams params argv) (\<lambda>params.
     seq (readFile w (fragFilename params)) (\<lambda>fragContents.
     seq (lift_crash (getShaderVersion fragContents)) (\<lambda>v.
     seq (contextInitAndGetAPI w (params\<lparr>shaderVersion := v\<rparr>)) (\<lambda>params.
     seqs [emit (Stdout (''API version: '' @ show_int (APIVersion params) @ ''\<newline>'')),
           openglInit w params fragContents,
           main_loop fuel ops w params c 0 False,
           emit Context_terminate,
           exit EXIT_SUCCESS]))))"

text \<open>What the loop does after \<open>savePNG\<close> has returned, with the fuel that is left.\<close>

definition after_capture ::
  "nat \<Rightarrow> 'c context_ops \<Rightarrow> world \<Rightarrow> Params \<Rightarrow> 'c \<Rightarrow> unit proc" where
  "after_capture fuel ops w params c =
     (if persist params then
        seq (emit (Stdout ''Press any key to close the window...\<newline>'')) (\<lambda>_.
        seq (emit Context_set_key_callback) (\<lambda>_.
          main_loop fuel ops w params (contextSetKeyCallback ops c) (delay params) True))
      else ret ())"

text \<open>
  For the statements about the loop: the calls of \<open>savePNG\<close> in a list of events (each
  starts with one \<open>glReadPixels\<close>, which nothing else calls), and the frames, one for each
  buffer swap.
\<close>

fun is_capture :: "event \<Rightarrow> bool" where
  "is_capture (GL (GlReadPixels uw uh)) = True"
| "is_capture e = False"

definition captures :: "event list \<Rightarrow> nat" where
  "captures tr = length (filter is_capture tr)"

definition frames :: "event list \<Rightarrow> nat" where
  "frames tr = length (filter (\<lambda>e. e = Context_swap) tr)"

text \<open>A window that stays open for the given number of frames, with no key callback.\<close>

definition counting_window :: "nat context_ops" where
  "counting_window =
     \<lparr>contextKeepLooping = (\<lambda>c. 0 < c),
      contextSwap = (\<lambda>c. c - 1),
      contextSetKeyCallback = (\<lambda>c. c)\<rparr>"

subsection \<open>Sample inputs\<close>

text \<open>
  A default-constructed \<open>Params\<close> object and a world in which every shader compiles and
  links, no OpenGL call raises an error and the program has no active uniform. The
  examples below change single fields of them.
\<close>

definition sample_params :: Params where
  "sample_params =
     \<lparr>width = 0, height = 0, shaderVersion = 0, API = API_OPENGL, APIVersion = 0,
      fragFilename = [], vertFilename = [], outputFilename = [], exitCompile = False,
      exitLinking = False, persist = False, delay = 0, binOut = []\<rparr>"

definition sample_files :: "string \<Rightarrow> string option" where
  "sample_files =
     [''shader.frag'' \<mapsto> ''#version 300 es\<newline>void main() { }\<newline>'',
      ''quad.vert'' \<mapsto> ''void main() { }\<newline>'']"

definition sample_world :: world where
  "sample_world =
     \<lparr>files = sample_files, json_parse = (\<lambda>_. None), negotiated_API = API_OPENGL_ES,
      negotiated_APIVersion = 300, gl_error = (\<lambda>_. False), compile_status = (\<lambda>_. True),
      shader_info_log = (\<lambda>_. []), program_handle = 1, link_status = True,
      program_info_log = [], attrib_location = (\<lambda>_. 0), active_uniforms = 0,
      active_uniform_name = (\<lambda>_. []), uniform_location = (\<lambda>_. 0),
      num_program_binary_formats = 0, program_binary = [], malloc_fails = False,
      read_pixels = (\<lambda>w h. replicate (4 * w * h) 0), png_error = 0,
      has_glUniform_ui = True\<rparr>"

text \<open>
  For the statements about duplicate entries: a list of events without the crash "more than
  one JSON entry", and a world whose description file has an entry for \<open>f\<close> and one for
  \<open>f[0]\<close>, for a program whose only active uniform is reflected as \<open>f[0]\<close>.
\<close>

definition no_duplicate_crash :: "event list \<Rightarrow> bool" where
  "no_duplicate_crash tr = (\<forall>n. Crash (More_than_one_JSON_entry n) \<notin> set tr)"

definition duplicate_world :: world where
  "duplicate_world =
     sample_world\<lparr>files := [''shader.json'' \<mapsto>
         ''{f: {func: glUniform1f, args: [1]}, f[0]: {func: glUniform1f, args: [2]}}''],
       json_parse := (\<lambda>s. Some (JObject [(''f'', default_entry ''glUniform1f'' [1]),
                                       (''f[0]'', default_entry ''glUniform1f'' [2])])),
       active_uniforms := 1, active_uniform_name := (\<lambda>i. ''f[0]'')\<rparr>"

section \<open>Properties\<close>

subsection \<open>Sequencing\<close>

lemma seq_Inr [simp]: "seq (t, Inr a) f = (t @ fst (f a), snd (f a))"
  by (simp add: seq_def)

lemma seq_Inl [simp]: "seq (t, Inl out) f = (t, Inl out)"
  by (simp add: seq_def)

subsection \<open>String search\<close>

lemma str_find_None_iff: "str_find s t = None \<longleftrightarrow> \<not> sublist t s"
proof (induction s)
  case Nil
  then show ?case by (cases t) auto
next
  case (Cons c s)
  have "prefix t (c # s) \<longleftrightarrow> take (length t) (c # s) = t"
    by (metis append_eq_conv_conj prefix_def)
  then show ?case using Cons by (simp add: sublist_Cons_right)
qed

lemma str_find_char_None_iff: "str_find_char s x = None \<longleftrightarrow> x \<notin> set s"
  by (induction s) auto

lemma str_find_char_take:
  "str_find_char s x = Some pos \<Longrightarrow> take pos s = takeWhile (\<lambda>c. c \<noteq> x) s"
  by (induction s arbitrary: pos) (auto split: if_splits)

subsection \<open>Version detection\<close>

lemma sublist_str_find: "sublist t s \<longleftrightarrow> str_find s t \<noteq> None"
  by (simp add: str_find_None_iff)

lemma first_line_append: "CHR 0x0A \<notin> set l \<Longrightarrow> first_line (l @ CHR 0x0A # rest) = l"
  by (induction l) (auto simp: first_line_def)

lemma getShaderVersion_refines: "getShaderVersion s = detectVersion s"
proof (cases "str_find_char s CHR 0x0A")
  case None
  then have "CHR 0x0A \<notin> set s"
    by (simp add: str_find_char_None_iff)
  then show ?thesis
    by (simp add: getShaderVersion_def detectVersion_def None)
next
  case (Some pos)
  then have nl: "CHR 0x0A \<in> set s"
    using str_find_char_None_iff [of s "CHR 0x0A"] by simp
  have sub: "take pos s = first_line s"
    using str_find_char_take [OF Some] by (simp add: first_line_def)
  show ?thesis
    using Some nl
    by (simp add: getShaderVersion_def detectVersion_def sub version_tokens_def
        str_find_None_iff Let_def)
qed

lemma detectVersion_unique:
  assumes "CHR 0x0A \<in> set s" "sublist ''#version'' (first_line s)"
    and "tv \<in> set version_tokens" "sublist (fst tv) (first_line s)"
    and "\<forall>tv' \<in> set version_tokens. sublist (fst tv') (first_line s) \<longrightarrow> tv' = tv"
  shows "detectVersion s = Inr (snd tv)"
proof -
  have "find (\<lambda>tv. sublist (fst tv) (first_line s)) version_tokens \<noteq> None"
    unfolding find_None_iff using assms(3,4) by blast
  then obtain r where r: "find (\<lambda>tv. sublist (fst tv) (first_line s)) version_tokens = Some r"
    by blast
  then have "r \<in> set version_tokens \<and> sublist (fst r) (first_line s)"
    by (auto simp: find_Some_iff)
  then have "r = tv" using assms(5) by blast
  then show ?thesis using assms(1,2) r by (simp add: detectVersion_def)
qed

text \<open>
  Claim C3. Version detection looks at the text before the first newline only. It fails
  when there is no newline, or when that first line has no \<open>#version\<close>; otherwise it
  returns the value of the first token of the list 110, 120, 130, 140, 150, 330, 400, 410,
  420, 430, 440, 450, 100, 300 that occurs in the first line, and fails with the
  unsupported-version error when none occurs. So \<open>getShaderVersion\<close> is \<open>detectVersion\<close>,
  the text after the first newline does not matter, and a first line in which exactly one
  of the tokens occurs gives that token's value.
\<close>

theorem getShaderVersion_first_line:
  "getShaderVersion s = detectVersion s
   \<and> (CHR 0x0A \<notin> set l \<longrightarrow>
        getShaderVersion (l @ CHR 0x0A # rest) = getShaderVersion (l @ CHR 0x0A # rest'))
   \<and> (CHR 0x0A \<notin> set l \<and> sublist ''#version'' l \<and> tv \<in> set version_tokens
        \<and> sublist (fst tv) l
        \<and> (\<forall>tv' \<in> set version_tokens. sublist (fst tv') l \<longrightarrow> tv' = tv)
        \<longrightarrow> getShaderVersion (l @ CHR 0x0A # rest) = Inr (snd tv))"
proof (intro conjI impI)
  show "getShaderVersion s = detectVersion s" by (rule getShaderVersion_refines)
next
  assume "CHR 0x0A \<notin> set l"
  then show "getShaderVersion (l @ CHR 0x0A # rest) = getShaderVersion (l @ CHR 0x0A # rest')"
    by (simp add: getShaderVersion_refines detectVersion_def first_line_append
        split: option.splits)
next
  assume a: "CHR 0x0A \<notin> set l \<and> sublist ''#version'' l \<and> tv \<in> set version_tokens
        \<and> sublist (fst tv) l
        \<and> (\<forall>tv' \<in> set version_tokens. sublist (fst tv') l \<longrightarrow> tv' = tv)"
  then have fl: "first_line (l @ CHR 0x0A # rest) = l" by (simp add: first_line_append)
  show "getShaderVersion (l @ CHR 0x0A # rest) = Inr (snd tv)"
    unfolding getShaderVersion_refines
    by (rule detectVersion_unique) (use a fl in auto)
qed

theorem getShaderVersion_first_line_witness:
  "CHR 0x0A \<notin> set ''#version 300 es'' \<and> sublist ''#version'' ''#version 300 es''
   \<and> (''300'', 300) \<in> set version_tokens \<and> sublist ''300'' ''#version 300 es''
   \<and> getShaderVersion (''#version 300 es'' @ CHR 0x0A # ''void main() { }'') = Inr 300
   \<and> getShaderVersion (''#version 300 es'' @ CHR 0x0A # ''#version 110'') = Inr 300"
  using getShaderVersion_first_line [of "''#version 300 es''" "''#version 300 es''" "''void main() { }''"
      "''#version 110''" "(''300'', 300)"]
  by (auto simp: version_tokens_def sublist_str_find)

subsection \<open>The synthesized vertex shader\<close>

lemma show_int_300: "show_int 300 = ''300''"
  by (simp add: show_int_def show_nat.simps digit_char_def)

text \<open>
  Claim C7. With a vertex shader path the synthesizer returns the contents of that file as
  they are. Without one, for version 300 it returns a shader whose version line ends with
  the token \<open>es\<close> and whose position input has the qualifier \<open>in\<close>, and for every other
  version a shader whose position input has the qualifier \<open>attribute\<close>; both declare the
  input as a \<open>vec2\<close> and write it to \<open>gl_Position\<close> with z = 0 and w = 1.
\<close>

theorem generateVertexShader_contents:
  "(vertFilename params \<noteq> [] \<and> files w (vertFilename params) = Some contents \<longrightarrow>
      generateVertexShader w params = ([Read_file (vertFilename params)], Inr contents))
   \<and> (vertFilename params = [] \<and> shaderVersion params = 300 \<longrightarrow>
      generateVertexShader w params =
        ([], Inr (''#version 300 es\<newline>'' @
                  ''in vec2 _GLF_vertexPosition;\<newline>'' @
                  ''void main(void) {\<newline>'' @
                  ''    gl_Position = vec4(_GLF_vertexPosition, 0.0, 1.0);\<newline>'' @
                  ''}\<newline>'')))
   \<and> (vertFilename params = [] \<and> shaderVersion params \<noteq> 300 \<longrightarrow>
      generateVertexShader w params =
        ([], Inr (''#version '' @ show_int (shaderVersion params) @ ''\<newline>'' @
                  ''attribute vec2 _GLF_vertexPosition;\<newline>'' @
                  ''void main(void) {\<newline>'' @
                  ''    gl_Position = vec4(_GLF_vertexPosition, 0.0, 1.0);\<newline>'' @
                  ''}\<newline>'')))"
  by (simp add: generateVertexShader_def readFile_def emit_def ret_def vertGenericContents_def
      show_int_300)

lemma show_int_100: "show_int 100 = ''100''"
  by (simp add: show_int_def show_nat.simps digit_char_def)

theorem generateVertexShader_contents_witness:
  "generateVertexShader sample_world (sample_params\<lparr>vertFilename := ''quad.vert''\<rparr>) =
     ([Read_file ''quad.vert''], Inr ''void main() { }\<newline>'')
   \<and> generateVertexShader sample_world (sample_params\<lparr>shaderVersion := 300\<rparr>) =
     ([], Inr (''#version 300 es\<newline>'' @
               ''in vec2 _GLF_vertexPosition;\<newline>'' @
               ''void main(void) {\<newline>'' @
               ''    gl_Position = vec4(_GLF_vertexPosition, 0.0, 1.0);\<newline>'' @
               ''}\<newline>''))
   \<and> generateVertexShader sample_world (sample_params\<lparr>shaderVersion := 100\<rparr>) =
     ([], Inr (''#version 100\<newline>'' @
               ''attribute vec2 _GLF_vertexPosition;\<newline>'' @
               ''void main(void) {\<newline>'' @
               ''    gl_Position = vec4(_GLF_vertexPosition, 0.0, 1.0);\<newline>'' @
               ''}\<newline>''))"
  using generateVertexShader_contents [of "sample_params\<lparr>vertFilename := ''quad.vert''\<rparr>"
      sample_world "''void main() { }\<newline>''"]
    generateVertexShader_contents [of "sample_params\<lparr>shaderVersion := 300\<rparr>" sample_world]
    generateVertexShader_contents [of "sample_params\<lparr>shaderVersion := 100\<rparr>" sample_world]
  by (simp add: sample_params_def sample_world_def sample_files_def show_int_100)

subsection \<open>Argument parsing\<close>

lemma usage_crash [simp]: "usage_exit name (seq (usage name) (\<lambda>_. crash c))"
  by (simp add: usage_exit_def usage_def crash_def errcode_crash_def emit_def)

declare setParams_loop.simps(2) [simp del]

lemma step_no_value:
  "setParams_loop name params (''--exit-compile'' # rest) =
     setParams_loop name (params\<lparr>exitCompile := True\<rparr>) rest"
  "setParams_loop name params (''--exit-linking'' # rest) =
     setParams_loop name (params\<lparr>exitLinking := True\<rparr>) rest"
  "setParams_loop name params (''--persist'' # rest) =
     setParams_loop name (params\<lparr>persist := True\<rparr>) rest"
  by (simp_all add: setParams_loop.simps(2))

lemma step_value:
  "setParams_loop name params (''--delay'' # v # rest) =
     setParams_loop name (params\<lparr>delay := atoi v\<rparr>) rest"
  "setParams_loop name params (''--output'' # v # rest) =
     setParams_loop name (params\<lparr>outputFilename := v\<rparr>) rest"
  "setParams_loop name params (''--vertex'' # v # rest) =
     setParams_loop name (params\<lparr>vertFilename := v\<rparr>) rest"
  "setParams_loop name params (''--dump_bin'' # v # rest) =
     setParams_loop name (params\<lparr>binOut := v\<rparr>) rest"
  "setParams_loop name params (''--resolution'' # v1 # v2 # rest) =
     setParams_loop name (params\<lparr>width := atoi v1, height := atoi v2\<rparr>) rest"
  by (simp_all add: setParams_loop.simps(2))

lemma step_missing_value:
  "setParams_loop name params [''--delay''] = seq (usage name) (\<lambda>_. crash (Missing_value ''--delay''))"
  "setParams_loop name params [''--output''] = seq (usage name) (\<lambda>_. crash (Missing_value ''--output''))"
  "setParams_loop name params [''--vertex''] = seq (usage name) (\<lambda>_. crash (Missing_value ''--vertex''))"
  "setParams_loop name params [''--dump_bin''] =
     seq (usage name) (\<lambda>_. crash (Missing_value ''--dump_bin''))"
  "setParams_loop name params [''--resolution''] =
     seq (usage name) (\<lambda>_. crash (Missing_value ''--resolution''))"
  "setParams_loop name params [''--resolution'', v] =
     seq (usage name) (\<lambda>_. crash (Missing_value ''--resolution''))"
  by (simp_all add: setParams_loop.simps(2))

lemma step_invalid_option:
  "take 2 arg = ''--'' \<Longrightarrow>
   arg \<notin> set [''--exit-compile'', ''--exit-linking'', ''--persist'', ''--delay'',
         ''--output'', ''--vertex'', ''--dump_bin'', ''--resolution''] \<Longrightarrow>
   setParams_loop name params (arg # rest) = seq (usage name) (\<lambda>_. crash (Invalid_option arg))"
  by (simp add: setParams_loop.simps(2))

lemma step_positional:
  "take 2 arg \<noteq> ''--'' \<Longrightarrow>
   setParams_loop name params (arg # rest) =
     (if fragFilename params = [] then setParams_loop name (params\<lparr>fragFilename := arg\<rparr>) rest
      else seq (usage name) (\<lambda>_. crash (Unexpected_extra_argument arg)))"
  by (simp add: setParams_loop.simps(2))

lemma flag_step_toI:
  "fragFilename params' = fragFilename params \<Longrightarrow>
   setParams_loop name params (arg # rest) =
     setParams_loop name params' (drop (option_arity arg) rest) \<Longrightarrow>
   flag_step_to name params arg rest"
  unfolding flag_step_to_def by blast

lemma flag_step_no_value:
  "flag_step_to name params ''--exit-compile'' rest"
  "flag_step_to name params ''--exit-linking'' rest"
  "flag_step_to name params ''--persist'' rest"
  by (rule flag_step_toI [where params' = "params\<lparr>exitCompile := True\<rparr>"],
      simp_all add: step_no_value option_arity_def)
    (rule flag_step_toI [where params' = "params\<lparr>exitLinking := True\<rparr>"],
      simp_all add: step_no_value option_arity_def,
      rule flag_step_toI [where params' = "params\<lparr>persist := True\<rparr>"],
      simp_all add: step_no_value option_arity_def)

lemma flag_step_value:
  "flag_step_to name params ''--delay'' rest"
  "flag_step_to name params ''--output'' rest"
  "flag_step_to name params ''--vertex'' rest"
  "flag_step_to name params ''--dump_bin'' rest"
proof -
  show "flag_step_to name params ''--delay'' rest"
  proof (cases rest)
    case Nil
    then show ?thesis by (simp add: flag_step_to_def step_missing_value)
  next
    case (Cons v rest')
    show ?thesis unfolding Cons
      by (rule flag_step_toI [where params' = "params\<lparr>delay := atoi v\<rparr>"])
        (simp_all add: step_value option_arity_def)
  qed
  show "flag_step_to name params ''--output'' rest"
  proof (cases rest)
    case Nil
    then show ?thesis by (simp add: flag_step_to_def step_missing_value)
  next
    case (Cons v rest')
    show ?thesis unfolding Cons
      by (rule flag_step_toI [where params' = "params\<lparr>outputFilename := v\<rparr>"])
        (simp_all add: step_value option_arity_def)
  qed
  show "flag_step_to name params ''--vertex'' rest"
  proof (cases rest)
    case Nil
    then show ?thesis by (simp add: flag_step_to_def step_missing_value)
  next
    case (Cons v rest')
    show ?thesis unfolding Cons
      by (rule flag_step_toI [where params' = "params\<lparr>vertFilename := v\<rparr>"])
        (simp_all add: step_value option_arity_def)
  qed
  show "flag_step_to name params ''--dump_bin'' rest"
  proof (cases rest)
    case Nil
    then show ?thesis by (simp add: flag_step_to_def step_missing_value)
  next
    case (Cons v rest')
    show ?thesis unfolding Cons
      by (rule flag_step_toI [where params' = "params\<lparr>binOut := v\<rparr>"])
        (simp_all add: step_value option_arity_def)
  qed
qed

lemma flag_step_resolution: "flag_step_to name params ''--resolution'' rest"
proof (cases rest)
  case Nil
  then show ?thesis by (simp add: flag_step_to_def step_missing_value)
next
  case (Cons v1 rest1)
  show ?thesis
  proof (cases rest1)
    case Nil
    then show ?thesis using Cons by (simp add: flag_step_to_def step_missing_value)
  next
    case (Cons v2 rest')
    show ?thesis unfolding \<open>rest = v1 # rest1\<close> Cons
      by (rule flag_step_toI [where params' = "params\<lparr>width := atoi v1, height := atoi v2\<rparr>"])
        (simp_all add: step_value option_arity_def)
  qed
qed

lemma flag_step:
  assumes "take 2 arg = ''--''"
  shows "flag_step_to name params arg rest"
proof (cases "arg \<in> set [''--exit-compile'', ''--exit-linking'', ''--persist'', ''--delay'',
         ''--output'', ''--vertex'', ''--dump_bin'', ''--resolution'']")
  case True
  then show ?thesis
    using flag_step_no_value [of name params rest] flag_step_value [of name params rest]
      flag_step_resolution [of name params rest]
    by auto
next
  case False
  then show ?thesis using assms by (simp add: flag_step_to_def step_invalid_option)
qed

lemma positionals_flag:
  "take 2 arg = ''--'' \<Longrightarrow> positionals (arg # rest) = positionals (drop (option_arity arg) rest)"
  by simp

lemma extra_positional:
  assumes "fragFilename params \<noteq> []" "positionals args \<noteq> []"
  shows "usage_exit name (setParams_loop name params args)"
  using assms
proof (induction "length args" arbitrary: args params rule: less_induct)
  case less
  from less.prems(2) obtain arg rest where args: "args = arg # rest"
    by (cases args) auto
  show ?case
  proof (cases "take 2 arg = ''--''")
    case True
    from flag_step [OF True, of name params rest, unfolded flag_step_to_def]
    show ?thesis
    proof
      assume "usage_exit name (setParams_loop name params (arg # rest))"
      then show ?thesis by (simp add: args)
    next
      assume "\<exists>params'. fragFilename params' = fragFilename params
           \<and> setParams_loop name params (arg # rest) =
               setParams_loop name params' (drop (option_arity arg) rest)"
      then obtain params' where p: "fragFilename params' = fragFilename params"
        and eq: "setParams_loop name params (arg # rest) =
               setParams_loop name params' (drop (option_arity arg) rest)"
        by blast
      have "usage_exit name (setParams_loop name params' (drop (option_arity arg) rest))"
      proof (rule less.hyps)
        show "length (drop (option_arity arg) rest) < length args" by (simp add: args)
        show "fragFilename params' \<noteq> []" using p less.prems(1) by simp
        show "positionals (drop (option_arity arg) rest) \<noteq> []"
          using less.prems(2) True by (simp add: args)
      qed
      then show ?thesis by (simp add: args eq)
    qed
  next
    case False
    then show ?thesis using less.prems(1) by (simp add: args step_positional)
  qed
qed

lemma second_positional:
  assumes "fragFilename params = []" "positionals args = a # b # others" "a \<noteq> []"
  shows "usage_exit name (setParams_loop name params args)"
  using assms
proof (induction "length args" arbitrary: args params rule: less_induct)
  case less
  from less.prems(2) obtain arg rest where args: "args = arg # rest"
    by (cases args) auto
  show ?case
  proof (cases "take 2 arg = ''--''")
    case True
    from flag_step [OF True, of name params rest, unfolded flag_step_to_def]
    show ?thesis
    proof
      assume "usage_exit name (setParams_loop name params (arg # rest))"
      then show ?thesis by (simp add: args)
    next
      assume "\<exists>params'. fragFilename params' = fragFilename params
           \<and> setParams_loop name params (arg # rest) =
               setParams_loop name params' (drop (option_arity arg) rest)"
      then obtain params' where p: "fragFilename params' = fragFilename params"
        and eq: "setParams_loop name params (arg # rest) =
               setParams_loop name params' (drop (option_arity arg) rest)"
        by blast
      have "usage_exit name (setParams_loop name params' (drop (option_arity arg) rest))"
      proof (rule less.hyps)
        show "length (drop (option_arity arg) rest) < length args" by (simp add: args)
        show "fragFilename params' = []" using p less.prems(1) by simp
        show "positionals (drop (option_arity arg) rest) = a # b # others"
          using less.prems(2) True by (simp add: args)
        show "a \<noteq> []" by (rule less.prems(3))
      qed
      then show ?thesis by (simp add: args eq)
    qed
  next
    case False
    then have "arg = a" "positionals rest = b # others"
      using less.prems(2) by (simp_all add: args)
    moreover have "usage_exit name (setParams_loop name (params\<lparr>fragFilename := a\<rparr>) rest)"
      by (rule extra_positional) (simp_all add: \<open>positionals rest = b # others\<close> less.prems(3))
    ultimately show ?thesis using False less.prems(1) by (simp add: args step_positional)
  qed
qed

lemma usage_exit_not_Inr: "usage_exit name r \<Longrightarrow> r \<noteq> (tr, Inr p)"
  by (auto simp: usage_exit_def)

lemma setParams_loop_returns:
  assumes "setParams_loop name params args = (tr, Inr p)"
  shows "if fragFilename params \<noteq> [] then positionals args = [] \<and> fragFilename p = fragFilename params
         else \<exists>k. positionals args =
                replicate k [] @ (if fragFilename p = [] then [] else [fragFilename p])"
  using assms
proof (induction "length args" arbitrary: args params rule: less_induct)
  case less
  show ?case
  proof (cases args)
    case Nil
    then have "p = params" using less.prems by (simp add: ret_def)
    then show ?thesis using Nil by (auto intro: exI [where x = 0])
  next
    case (Cons arg rest)
    show ?thesis
    proof (cases "take 2 arg = ''--''")
      case True
      have "\<not> usage_exit name (setParams_loop name params (arg # rest))"
        using less.prems usage_exit_not_Inr [of name _ tr p] unfolding Cons by blast
      with flag_step [OF True, of name params rest]
      obtain params' where p: "fragFilename params' = fragFilename params"
        and eq': "setParams_loop name params (arg # rest) =
               setParams_loop name params' (drop (option_arity arg) rest)"
        unfolding flag_step_to_def by blast
      have eq: "setParams_loop name params' (drop (option_arity arg) rest) = (tr, Inr p)"
        using less.prems eq' by (simp add: Cons)
      have "length (drop (option_arity arg) rest) < length args" by (simp add: Cons)
      from less.hyps [OF this eq] show ?thesis
        using True p by (simp add: Cons)
    next
      case False
      show ?thesis
      proof (cases "fragFilename params = []")
        case True
        then have eq: "setParams_loop name (params\<lparr>fragFilename := arg\<rparr>) rest = (tr, Inr p)"
          using less.prems False by (simp add: Cons step_positional)
        have "length rest < length args" by (simp add: Cons)
        from less.hyps [OF this eq] show ?thesis
        proof (cases "arg = []")
          case arg: True
          with \<open>if fragFilename (params\<lparr>fragFilename := arg\<rparr>) \<noteq> [] then _ else _\<close>
          obtain k where "positionals rest =
              replicate k [] @ (if fragFilename p = [] then [] else [fragFilename p])"
            by auto
          then have "positionals args =
              replicate (Suc k) [] @ (if fragFilename p = [] then [] else [fragFilename p])"
            using False arg by (simp add: Cons)
          then have "\<exists>k. positionals args =
              replicate k [] @ (if fragFilename p = [] then [] else [fragFilename p])"
            by (rule exI)
          then show ?thesis using True by simp
        next
          case arg: False
          with \<open>if fragFilename (params\<lparr>fragFilename := arg\<rparr>) \<noteq> [] then _ else _\<close>
          have "positionals rest = []" "fragFilename p = arg" by auto
          then have "positionals args =
              replicate 0 [] @ (if fragFilename p = [] then [] else [fragFilename p])"
            using False arg by (simp add: Cons)
          then have "\<exists>k. positionals args =
              replicate k [] @ (if fragFilename p = [] then [] else [fragFilename p])"
            by (rule exI)
          then show ?thesis using True by simp
        qed
      next
        case nonempty: False
        then have "usage_exit name (setParams_loop name params args)"
          using False by (simp add: Cons step_positional)
        then show ?thesis using less.prems usage_exit_not_Inr [of name _ tr p] by blast
      qed
    qed
  qed
qed

lemma fragFilename_defaultParams: "fragFilename (defaultParams params) = []"
  by (simp add: defaultParams_def)

text \<open>
  Claim C10, as amended. For every command line with more than one positional argument of
  which the first is not the empty string, \<open>setParams\<close> prints the usage text and ends the
  process with the generic error code 1. Whenever \<open>setParams\<close> returns, the accepted fragment
  shader path is not empty and is the only positional argument that is not the empty
  string, and no positional argument follows it.
\<close>

theorem setParams_second_positional:
  "(positionals args = a # b # others \<and> a \<noteq> [] \<longrightarrow>
      (\<exists>c. setParams params (name # args) = ([Usage name, Crash c], Inl (Exit EXIT_FAILURE))))
   \<and> (setParams params (name # args) = (tr, Inr p) \<longrightarrow>
      fragFilename p \<noteq> [] \<and> (\<exists>k. positionals args = replicate k [] @ [fragFilename p]))"
proof (rule conjI; rule impI)
  assume "positionals args = a # b # others \<and> a \<noteq> []"
  then have "usage_exit name (setParams_loop name (defaultParams params) args)"
    using second_positional [of "defaultParams params" args a b others name]
    by (simp add: fragFilename_defaultParams)
  then show "\<exists>c. setParams params (name # args) = ([Usage name, Crash c], Inl (Exit EXIT_FAILURE))"
    by (auto simp: setParams_def usage_exit_def)
next
  assume r: "setParams params (name # args) = (tr, Inr p)"
  obtain tr' q where q: "setParams_loop name (defaultParams params) args = (tr', q)"
    by (cases "setParams_loop name (defaultParams params) args")
  show "fragFilename p \<noteq> [] \<and> (\<exists>k. positionals args = replicate k [] @ [fragFilename p])"
  proof (cases q)
    case (Inl out)
    then show ?thesis using r q by (simp add: setParams_def)
  next
    case (Inr p')
    have ne: "fragFilename p' \<noteq> []"
    proof
      assume "fragFilename p' = []"
      then have "snd (setParams params (name # args)) = Inl (Exit EXIT_FAILURE)"
        by (simp add: setParams_def q Inr usage_def crash_def errcode_crash_def emit_def)
      then show False using r by simp
    qed
    then have pp: "p' = p"
      using r by (simp add: setParams_def q Inr ret_def)
    from setParams_loop_returns [OF q [unfolded Inr]] ne pp
    show ?thesis by (simp add: fragFilename_defaultParams)
  qed
qed

text \<open>
  The claim as it was stated fails for an empty first positional argument: the source takes
  an empty \<open>fragFilename\<close> for "not set yet", so the second positional argument is accepted.
\<close>

theorem setParams_second_positional_counterexample:
  "positionals [[], ''x.frag''] = [[], ''x.frag'']
   \<and> setParams sample_params [''get-image'', [], ''x.frag''] =
       ([], Inr ((defaultParams sample_params)\<lparr>fragFilename := ''x.frag''\<rparr>))"
  by (simp add: setParams_def step_positional defaultParams_def ret_def)

theorem setParams_second_positional_witness:
  "positionals [''--delay'', ''3'', ''a.frag'', ''b.frag''] = [''a.frag'', ''b.frag'']
   \<and> setParams sample_params [''get-image'', ''--delay'', ''3'', ''a.frag'', ''b.frag''] =
       ([Usage ''get-image'', Crash (Unexpected_extra_argument ''b.frag'')],
        Inl (Exit EXIT_FAILURE))
   \<and> setParams sample_params [''get-image'', ''--delay'', ''3'', ''a.frag''] =
       ([], Inr ((defaultParams sample_params)\<lparr>delay := 3, fragFilename := ''a.frag''\<rparr>))
   \<and> positionals [''--delay'', ''3'', ''a.frag''] = replicate 0 [] @ [''a.frag'']"
  using setParams_second_positional [of "[''--delay'', ''3'', ''a.frag'', ''b.frag'']"
      "''a.frag''" "''b.frag''" "[]" sample_params "''get-image''"]
    setParams_second_positional [of "[''--delay'', ''3'', ''a.frag'']" _ _ _ sample_params
      "''get-image''" "[]" "(defaultParams sample_params)\<lparr>delay := 3, fragFilename := ''a.frag''\<rparr>"]
  by (simp add: setParams_def step_positional step_value defaultParams_def ret_def usage_def
      crash_def errcode_crash_def emit_def option_arity_def atoi_def isspace_def isdigit_def
      digit_val_def)

subsection \<open>Compiling and linking\<close>

lemma GL_CHECKERR_ok: "\<not> list_ex (gl_error w) cs \<Longrightarrow> GL_CHECKERR w cs c = ([], Inr ())"
  by (simp add: GL_CHECKERR_def ret_def)

lemma GL_SAFECALL_ok: "\<not> gl_error w c \<Longrightarrow> GL_SAFECALL w c = ([GL c], Inr ())"
  by (simp add: GL_SAFECALL_def GL_CHECKERR_def emit_def ret_def)

lemma printShaderError_events:
  "printShaderError w shader =
     ([GL (GlGetShaderiv_INFO_LOG_LENGTH shader), GL (GlGetShaderInfoLog shader)] @
      (if shader_info_log w shader = [] then []
       else [Stdout (shader_info_log w shader @ ''\<newline>'')]), Inr ())"
  by (simp add: printShaderError_def emit_def ret_def)

lemma printProgramError_events:
  "printProgramError w =
     ([GL GlGetProgramiv_INFO_LOG_LENGTH, GL GlGetProgramInfoLog] @
      (if program_info_log w = [] then []
       else [Stdout (program_info_log w @ ''\<newline>'')]), Inr ())"
  by (simp add: printProgramError_def emit_def ret_def)

lemma openglInit_fragment_fails:
  assumes "\<forall>c. \<not> gl_error w c" "\<not> compile_status w GL_FRAGMENT_SHADER"
  shows "openglInit w params fragContents =
     ([GL (GlCreateShader GL_FRAGMENT_SHADER), GL (GlShaderSource GL_FRAGMENT_SHADER fragContents),
       GL (GlCompileShader GL_FRAGMENT_SHADER), GL (GlGetShaderiv_COMPILE_STATUS GL_FRAGMENT_SHADER),
       GL (GlGetShaderiv_INFO_LOG_LENGTH GL_FRAGMENT_SHADER), GL (GlGetShaderInfoLog GL_FRAGMENT_SHADER)] @
      (if shader_info_log w GL_FRAGMENT_SHADER = [] then []
       else [Stdout (shader_info_log w GL_FRAGMENT_SHADER @ ''\<newline>'')]) @
      [Crash (Fragment_shader_compilation_failed (fragFilename params))],
      Inl (Exit 101))"
  using assms
  by (simp add: openglInit_def GL_CHECKERR_ok GL_SAFECALL_ok printShaderError_events emit_def
      errcode_crash_def COMPILE_ERROR_EXIT_CODE_def)

lemma openglInit_exitCompile:
  assumes "\<forall>c. \<not> gl_error w c" "compile_status w GL_FRAGMENT_SHADER" "exitCompile params"
  shows "openglInit w params fragContents =
     ([GL (GlCreateShader GL_FRAGMENT_SHADER), GL (GlShaderSource GL_FRAGMENT_SHADER fragContents),
       GL (GlCompileShader GL_FRAGMENT_SHADER), GL (GlGetShaderiv_COMPILE_STATUS GL_FRAGMENT_SHADER)],
      Inl (Exit 0))"
  using assms
  by (simp add: openglInit_def GL_CHECKERR_ok GL_SAFECALL_ok emit_def ret_def exit_def stop_def
      EXIT_SUCCESS_def)

lemma openglInit_vertex_fails:
  assumes "\<forall>c. \<not> gl_error w c" "compile_status w GL_FRAGMENT_SHADER" "\<not> exitCompile params"
    and "generateVertexShader w params = (gt, Inr vertContents)"
    and "\<not> compile_status w GL_VERTEX_SHADER"
  shows "openglInit w params fragContents =
     (([GL (GlCreateShader GL_FRAGMENT_SHADER), GL (GlShaderSource GL_FRAGMENT_SHADER fragContents),
        GL (GlCompileShader GL_FRAGMENT_SHADER), GL (GlGetShaderiv_COMPILE_STATUS GL_FRAGMENT_SHADER),
        GL (GlCreateShader GL_VERTEX_SHADER)] @ gt @
       [GL (GlShaderSource GL_VERTEX_SHADER vertContents), GL (GlCompileShader GL_VERTEX_SHADER)]) @
      [GL (GlGetShaderiv_COMPILE_STATUS GL_VERTEX_SHADER),
       GL (GlGetShaderiv_INFO_LOG_LENGTH GL_VERTEX_SHADER), GL (GlGetShaderInfoLog GL_VERTEX_SHADER)] @
      (if shader_info_log w GL_VERTEX_SHADER = [] then []
       else [Stdout (shader_info_log w GL_VERTEX_SHADER @ ''\<newline>'')]) @
      [Crash (Vertex_shader_compilation_failed (fragFilename params))],
      Inl (Exit COMPILE_ERROR_EXIT_CODE))"
  using assms
  by (simp add: openglInit_def GL_CHECKERR_ok GL_SAFECALL_ok printShaderError_events emit_def
      ret_def errcode_crash_def)

lemma openglInit_link_fails:
  assumes "\<forall>c. \<not> gl_error w c" "compile_status w GL_FRAGMENT_SHADER" "\<not> exitCompile params"
    and "generateVertexShader w params = (gt, Inr vertContents)"
    and "compile_status w GL_VERTEX_SHADER" "program_handle w \<noteq> 0" "\<not> link_status w"
  shows "openglInit w params fragContents =
     (([GL (GlCreateShader GL_FRAGMENT_SHADER), GL (GlShaderSource GL_FRAGMENT_SHADER fragContents),
        GL (GlCompileShader GL_FRAGMENT_SHADER), GL (GlGetShaderiv_COMPILE_STATUS GL_FRAGMENT_SHADER),
        GL (GlCreateShader GL_VERTEX_SHADER)] @ gt @
       [GL (GlShaderSource GL_VERTEX_SHADER vertContents), GL (GlCompileShader GL_VERTEX_SHADER),
        GL (GlGetShaderiv_COMPILE_STATUS GL_VERTEX_SHADER), GL GlCreateProgram] @
       (if supported params then [GL GlProgramParameteri_BINARY_RETRIEVABLE_HINT] else []) @
       [GL (GlAttachShader GL_VERTEX_SHADER), GL (GlAttachShader GL_FRAGMENT_SHADER),
        GL GlLinkProgram]) @
      [GL GlGetProgramiv_LINK_STATUS, GL GlGetProgramiv_INFO_LOG_LENGTH, GL GlGetProgramInfoLog] @
      (if program_info_log w = [] then [] else [Stdout (program_info_log w @ ''\<newline>'')]) @
      [Crash Program_linking_failed],
      Inl (Exit LINK_ERROR_EXIT_CODE))"
  using assms
  by (simp add: openglInit_def GL_CHECKERR_ok GL_SAFECALL_ok printProgramError_events emit_def
      ret_def errcode_crash_def)

text \<open>
  Claim C2. When no OpenGL call raises an error, a fragment shader or a vertex shader that
  fails to compile ends the process with the exit code 101, and a program that fails to link
  ends it with the exit code 102. In each case the status is read, then \<open>printShaderError\<close> or
  \<open>printProgramError\<close> prints the information log of the backend (when the log is not
  empty), then the process ends. The two codes differ from each other, from the generic
  error code 1 and from 0.
\<close>

theorem compile_and_link_exit_codes:
  "((\<forall>c. \<not> gl_error w c) \<and> \<not> compile_status w GL_FRAGMENT_SHADER \<longrightarrow>
      (\<exists>tr. openglInit w params fragContents =
         (tr @ [GL (GlGetShaderiv_COMPILE_STATUS GL_FRAGMENT_SHADER),
                GL (GlGetShaderiv_INFO_LOG_LENGTH GL_FRAGMENT_SHADER),
                GL (GlGetShaderInfoLog GL_FRAGMENT_SHADER)] @
          (if shader_info_log w GL_FRAGMENT_SHADER = [] then []
           else [Stdout (shader_info_log w GL_FRAGMENT_SHADER @ ''\<newline>'')]) @
          [Crash (Fragment_shader_compilation_failed (fragFilename params))],
          Inl (Exit COMPILE_ERROR_EXIT_CODE))))
   \<and> ((\<forall>c. \<not> gl_error w c) \<and> compile_status w GL_FRAGMENT_SHADER \<and> \<not> exitCompile params
        \<and> generateVertexShader w params = (gt, Inr vertContents)
        \<and> \<not> compile_status w GL_VERTEX_SHADER \<longrightarrow>
      (\<exists>tr. openglInit w params fragContents =
         (tr @ [GL (GlGetShaderiv_COMPILE_STATUS GL_VERTEX_SHADER),
                GL (GlGetShaderiv_INFO_LOG_LENGTH GL_VERTEX_SHADER),
                GL (GlGetShaderInfoLog GL_VERTEX_SHADER)] @
          (if shader_info_log w GL_VERTEX_SHADER = [] then []
           else [Stdout (shader_info_log w GL_VERTEX_SHADER @ ''\<newline>'')]) @
          [Crash (Vertex_shader_compilation_failed (fragFilename params))],
          Inl (Exit COMPILE_ERROR_EXIT_CODE))))
   \<and> ((\<forall>c. \<not> gl_error w c) \<and> compile_status w GL_FRAGMENT_SHADER \<and> \<not> exitCompile params
        \<and> generateVertexShader w params = (gt, Inr vertContents)
        \<and> compile_status w GL_VERTEX_SHADER \<and> program_handle w \<noteq> 0
        \<and> \<not> link_status w \<longrightarrow>
      (\<exists>tr. openglInit w params fragContents =
         (tr @ [GL GlGetProgramiv_LINK_STATUS, GL GlGetProgramiv_INFO_LOG_LENGTH,
                GL GlGetProgramInfoLog] @
          (if program_info_log w = [] then [] else [Stdout (program_info_log w @ ''\<newline>'')]) @
          [Crash Program_linking_failed],
          Inl (Exit LINK_ERROR_EXIT_CODE))))
   \<and> COMPILE_ERROR_EXIT_CODE = 101 \<and> LINK_ERROR_EXIT_CODE = 102
   \<and> distinct [EXIT_SUCCESS, EXIT_FAILURE, COMPILE_ERROR_EXIT_CODE, LINK_ERROR_EXIT_CODE]"
proof (intro conjI impI)
  assume a: "(\<forall>c. \<not> gl_error w c) \<and> \<not> compile_status w GL_FRAGMENT_SHADER"
  show "\<exists>tr. openglInit w params fragContents =
         (tr @ [GL (GlGetShaderiv_COMPILE_STATUS GL_FRAGMENT_SHADER),
                GL (GlGetShaderiv_INFO_LOG_LENGTH GL_FRAGMENT_SHADER),
                GL (GlGetShaderInfoLog GL_FRAGMENT_SHADER)] @
          (if shader_info_log w GL_FRAGMENT_SHADER = [] then []
           else [Stdout (shader_info_log w GL_FRAGMENT_SHADER @ ''\<newline>'')]) @
          [Crash (Fragment_shader_compilation_failed (fragFilename params))],
          Inl (Exit COMPILE_ERROR_EXIT_CODE))"
    by (rule exI [where x = "[GL (GlCreateShader GL_FRAGMENT_SHADER),
          GL (GlShaderSource GL_FRAGMENT_SHADER fragContents), GL (GlCompileShader GL_FRAGMENT_SHADER)]"])
      (use a in \<open>simp add: openglInit_fragment_fails COMPILE_ERROR_EXIT_CODE_def\<close>)
next
  assume a: "(\<forall>c. \<not> gl_error w c) \<and> compile_status w GL_FRAGMENT_SHADER \<and> \<not> exitCompile params
        \<and> generateVertexShader w params = (gt, Inr vertContents)
        \<and> \<not> compile_status w GL_VERTEX_SHADER"
  then have "\<forall>c. \<not> gl_error w c" "compile_status w GL_FRAGMENT_SHADER" "\<not> exitCompile params"
    "generateVertexShader w params = (gt, Inr vertContents)" "\<not> compile_status w GL_VERTEX_SHADER"
    by simp_all
  note eq = openglInit_vertex_fails [OF this]
  show "\<exists>tr. openglInit w params fragContents =
         (tr @ [GL (GlGetShaderiv_COMPILE_STATUS GL_VERTEX_SHADER),
                GL (GlGetShaderiv_INFO_LOG_LENGTH GL_VERTEX_SHADER),
                GL (GlGetShaderInfoLog GL_VERTEX_SHADER)] @
          (if shader_info_log w GL_VERTEX_SHADER = [] then []
           else [Stdout (shader_info_log w GL_VERTEX_SHADER @ ''\<newline>'')]) @
          [Crash (Vertex_shader_compilation_failed (fragFilename params))],
          Inl (Exit COMPILE_ERROR_EXIT_CODE))"
    unfolding eq by blast
next
  assume a: "(\<forall>c. \<not> gl_error w c) \<and> compile_status w GL_FRAGMENT_SHADER \<and> \<not> exitCompile params
        \<and> generateVertexShader w params = (gt, Inr vertContents)
        \<and> compile_status w GL_VERTEX_SHADER \<and> program_handle w \<noteq> 0
        \<and> \<not> link_status w"
  then have "\<forall>c. \<not> gl_error w c" "compile_status w GL_FRAGMENT_SHADER" "\<not> exitCompile params"
    "generateVertexShader w params = (gt, Inr vertContents)" "compile_status w GL_VERTEX_SHADER"
    "program_handle w \<noteq> 0" "\<not> link_status w"
    by simp_all
  note eq = openglInit_link_fails [OF this]
  show "\<exists>tr. openglInit w params fragContents =
         (tr @ [GL GlGetProgramiv_LINK_STATUS, GL GlGetProgramiv_INFO_LOG_LENGTH,
                GL GlGetProgramInfoLog] @
          (if program_info_log w = [] then [] else [Stdout (program_info_log w @ ''\<newline>'')]) @
          [Crash Program_linking_failed],
          Inl (Exit LINK_ERROR_EXIT_CODE))"
    unfolding eq by blast
qed (simp_all add: COMPILE_ERROR_EXIT_CODE_def LINK_ERROR_EXIT_CODE_def EXIT_SUCCESS_def
    EXIT_FAILURE_def)

text \<open>
  Claim C6. A run that is configured to stop after the compilation exits with the code 0
  right after the fragment shader has compiled: the events of the whole run are the reading
  of the shader file, the creation of the context, the line with the API version and the
  four calls that compile the fragment shader. There is no call for a vertex shader, no
  link, no frame and no image, whatever the delay and however long the loop could run.
\<close>

theorem exit_compile_stops_after_fragment:
  "setParams params argv = (tr0, Inr p) \<and> exitCompile p
   \<and> files w (fragFilename p) = Some fragContents \<and> getShaderVersion fragContents = Inr v
   \<and> (\<forall>c. \<not> gl_error w c) \<and> compile_status w GL_FRAGMENT_SHADER \<longrightarrow>
   main fuel ops w c params argv =
     (tr0 @ [Read_file (fragFilename p), Context_init,
             Stdout (''API version: '' @ show_int (negotiated_APIVersion w) @ ''\<newline>''),
             GL (GlCreateShader GL_FRAGMENT_SHADER),
             GL (GlShaderSource GL_FRAGMENT_SHADER fragContents),
             GL (GlCompileShader GL_FRAGMENT_SHADER),
             GL (GlGetShaderiv_COMPILE_STATUS GL_FRAGMENT_SHADER)],
      Inl (Exit EXIT_SUCCESS))"
proof
  assume a: "setParams params argv = (tr0, Inr p) \<and> exitCompile p
   \<and> files w (fragFilename p) = Some fragContents \<and> getShaderVersion fragContents = Inr v
   \<and> (\<forall>c. \<not> gl_error w c) \<and> compile_status w GL_FRAGMENT_SHADER"
  let ?p = "p\<lparr>shaderVersion := v, API := negotiated_API w, APIVersion := negotiated_APIVersion w\<rparr>"
  have "openglInit w ?p fragContents =
     ([GL (GlCreateShader GL_FRAGMENT_SHADER), GL (GlShaderSource GL_FRAGMENT_SHADER fragContents),
       GL (GlCompileShader GL_FRAGMENT_SHADER), GL (GlGetShaderiv_COMPILE_STATUS GL_FRAGMENT_SHADER)],
      Inl (Exit 0))"
    by (rule openglInit_exitCompile) (use a in simp_all)
  then show "main fuel ops w c params argv =
     (tr0 @ [Read_file (fragFilename p), Context_init,
             Stdout (''API version: '' @ show_int (negotiated_APIVersion w) @ ''\<newline>''),
             GL (GlCreateShader GL_FRAGMENT_SHADER),
             GL (GlShaderSource GL_FRAGMENT_SHADER fragContents),
             GL (GlCompileShader GL_FRAGMENT_SHADER),
             GL (GlGetShaderiv_COMPILE_STATUS GL_FRAGMENT_SHADER)],
      Inl (Exit EXIT_SUCCESS))"
    using a
    by (simp add: main_def readFile_def lift_crash_def contextInitAndGetAPI_def emit_def ret_def
        EXIT_SUCCESS_def)
qed

lemma generateVertexShader_sample:
  "generateVertexShader (sample_world\<lparr>compile_status := cs, link_status := ls\<rparr>)
     (sample_params\<lparr>vertFilename := ''quad.vert''\<rparr>) =
     ([Read_file ''quad.vert''], Inr ''void main() { }\<newline>'')"
  by (simp add: sample_world_def sample_params_def sample_files_def generateVertexShader_def
      readFile_def emit_def ret_def)

theorem compile_and_link_exit_codes_witness:
  "snd (openglInit (sample_world\<lparr>compile_status := (\<lambda>k. False), link_status := True\<rparr>)
        sample_params ''void'') = Inl (Exit 101)
   \<and> snd (openglInit (sample_world\<lparr>compile_status := (\<lambda>k. k = GL_FRAGMENT_SHADER),
          link_status := True\<rparr>)
        (sample_params\<lparr>vertFilename := ''quad.vert''\<rparr>) ''void'') = Inl (Exit 101)
   \<and> snd (openglInit (sample_world\<lparr>compile_status := (\<lambda>k. True), link_status := False\<rparr>)
        (sample_params\<lparr>vertFilename := ''quad.vert''\<rparr>) ''void'') = Inl (Exit 102)"
proof (intro conjI)
  let ?w = "sample_world\<lparr>compile_status := (\<lambda>k. False), link_status := True\<rparr>"
  have "(\<forall>c. \<not> gl_error ?w c) \<and> \<not> compile_status ?w GL_FRAGMENT_SHADER"
    by (simp add: sample_world_def)
  from compile_and_link_exit_codes [where w = ?w and params = sample_params
      and fragContents = "''void''", THEN conjunct1, THEN mp, OF this]
  show "snd (openglInit ?w sample_params ''void'') = Inl (Exit 101)"
    by (auto simp: COMPILE_ERROR_EXIT_CODE_def)
next
  let ?w = "sample_world\<lparr>compile_status := (\<lambda>k. k = GL_FRAGMENT_SHADER), link_status := True\<rparr>"
  let ?p = "sample_params\<lparr>vertFilename := ''quad.vert''\<rparr>"
  have "(\<forall>c. \<not> gl_error ?w c) \<and> compile_status ?w GL_FRAGMENT_SHADER \<and> \<not> exitCompile ?p
        \<and> generateVertexShader ?w ?p = ([Read_file ''quad.vert''], Inr ''void main() { }\<newline>'')
        \<and> \<not> compile_status ?w GL_VERTEX_SHADER"
    unfolding generateVertexShader_sample by (simp add: sample_world_def sample_params_def)
  from compile_and_link_exit_codes [where w = ?w and params = ?p
      and fragContents = "''void''", THEN conjunct2, THEN conjunct1, THEN mp, OF this]
  show "snd (openglInit ?w ?p ''void'') = Inl (Exit 101)"
    by (auto simp: COMPILE_ERROR_EXIT_CODE_def)
next
  let ?w = "sample_world\<lparr>compile_status := (\<lambda>k. True), link_status := False\<rparr>"
  let ?p = "sample_params\<lparr>vertFilename := ''quad.vert''\<rparr>"
  have "(\<forall>c. \<not> gl_error ?w c) \<and> compile_status ?w GL_FRAGMENT_SHADER \<and> \<not> exitCompile ?p
        \<and> generateVertexShader ?w ?p = ([Read_file ''quad.vert''], Inr ''void main() { }\<newline>'')
        \<and> compile_status ?w GL_VERTEX_SHADER \<and> program_handle ?w \<noteq> 0
        \<and> \<not> link_status ?w"
    unfolding generateVertexShader_sample by (simp add: sample_world_def sample_params_def)
  from compile_and_link_exit_codes [where w = ?w and params = ?p
      and fragContents = "''void''", THEN conjunct2, THEN conjunct2, THEN conjunct1, THEN mp, OF this]
  show "snd (openglInit ?w ?p ''void'') = Inl (Exit 102)"
    by (auto simp: LINK_ERROR_EXIT_CODE_def)
qed

lemma getShaderVersion_sample:
  "getShaderVersion ''#version 300 es\<newline>void main() { }\<newline>'' = Inr 300"
  by (simp add: getShaderVersion_def)

theorem exit_compile_stops_after_fragment_witness:
  "main 0 counting_window sample_world 3 sample_params [''get-image'', ''--exit-compile'', ''shader.frag''] =
     ([Read_file ''shader.frag'', Context_init, Stdout ''API version: 300\<newline>'',
       GL (GlCreateShader GL_FRAGMENT_SHADER),
       GL (GlShaderSource GL_FRAGMENT_SHADER ''#version 300 es\<newline>void main() { }\<newline>''),
       GL (GlCompileShader GL_FRAGMENT_SHADER),
       GL (GlGetShaderiv_COMPILE_STATUS GL_FRAGMENT_SHADER)],
      Inl (Exit 0))
   \<and> delay (defaultParams sample_params) = 5"
  using exit_compile_stops_after_fragment [where params = sample_params
      and argv = "[''get-image'', ''--exit-compile'', ''shader.frag'']" and ?tr0.0 = "[]"
      and p = "(defaultParams sample_params)\<lparr>exitCompile := True, fragFilename := ''shader.frag''\<rparr>"
      and w = sample_world and fragContents = "''#version 300 es\<newline>void main() { }\<newline>''"
      and v = 300 and fuel = 0 and ops = counting_window and c = 3]
  by (simp add: setParams_def step_no_value step_positional defaultParams_def ret_def
      sample_world_def sample_files_def getShaderVersion_sample show_int_300 EXIT_SUCCESS_def)

subsection \<open>Binding the uniforms\<close>

text \<open>
  Claim C4. For a program with no active uniform (and a query of the count that raises no
  OpenGL error) \<open>setUniformsJSON\<close> returns at once: its only event is that query. It
  neither looks for the description file nor reads or parses it, and it does not fail,
  whatever the files and the parser of the world are.
\<close>

theorem setUniformsJSON_no_uniforms:
  "active_uniforms w = 0 \<and> \<not> gl_error w GlGetProgramiv_ACTIVE_UNIFORMS \<longrightarrow>
     setUniformsJSON w params = ([GL GlGetProgramiv_ACTIVE_UNIFORMS], Inr ())"
  by (simp add: setUniformsJSON_def GL_SAFECALL_ok ret_def)

theorem setUniformsJSON_no_uniforms_witness:
  "setUniformsJSON (sample_world\<lparr>files := (\<lambda>name. None)\<rparr>)
      (sample_params\<lparr>fragFilename := ''shader.frag''\<rparr>) =
     ([GL GlGetProgramiv_ACTIVE_UNIFORMS], Inr ())
   \<and> setUniformsJSON (sample_world\<lparr>files := [''shader.json'' \<mapsto> ''{''], json_parse := (\<lambda>s. None)\<rparr>)
      (sample_params\<lparr>fragFilename := ''shader.frag''\<rparr>) =
     ([GL GlGetProgramiv_ACTIVE_UNIFORMS], Inr ())
   \<and> setUniformsJSON (sample_world\<lparr>files := [''shader.json'' \<mapsto> ''{''], json_parse := (\<lambda>s. None),
        active_uniforms := 1\<rparr>)
      (sample_params\<lparr>fragFilename := ''shader.frag''\<rparr>) =
     ([GL GlGetProgramiv_ACTIVE_UNIFORMS, Probe_file ''shader.json'', Read_file ''shader.json''],
      Inl Uncaught_exception)"
  using setUniformsJSON_no_uniforms [of "sample_world\<lparr>files := (\<lambda>name. None)\<rparr>"
      "sample_params\<lparr>fragFilename := ''shader.frag''\<rparr>"]
    setUniformsJSON_no_uniforms [of "sample_world\<lparr>files := [''shader.json'' \<mapsto> ''{''],
      json_parse := (\<lambda>s. None)\<rparr>" "sample_params\<lparr>fragFilename := ''shader.frag''\<rparr>"]
  by (simp add: sample_world_def sample_params_def setUniformsJSON_def GL_SAFECALL_ok
      replace_extension_def isFile_def readFile_def emit_def ret_def stop_def)

lemma no_duplicate_crash_seq:
  "no_duplicate_crash (fst m) \<Longrightarrow> (\<And>a. no_duplicate_crash (fst (f a))) \<Longrightarrow>
   no_duplicate_crash (fst (seq m f))"
  by (cases m; cases "snd m") (auto simp: seq_def no_duplicate_crash_def)

lemma no_duplicate_crash_basic:
  "no_duplicate_crash (fst (ret x))"
  "no_duplicate_crash (fst (stop out))"
  "no_duplicate_crash (fst (emit (GL c)))"
  "no_duplicate_crash (fst (emit (Stderr s)))"
  "no_duplicate_crash (fst (emit (Probe_file s)))"
  "no_duplicate_crash (fst (emit (Read_file s)))"
  "no_duplicate_crash (fst (GL_CHECKERR w cs c))"
  "no_duplicate_crash (fst (GL_SAFECALL w c))"
  by (simp_all add: no_duplicate_crash_def ret_def stop_def emit_def GL_CHECKERR_def
      GL_SAFECALL_def crash_def errcode_crash_def seq_def)

lemma no_duplicate_crash_crash:
  "(\<And>n. c \<noteq> More_than_one_JSON_entry n) \<Longrightarrow> no_duplicate_crash (fst (crash c))"
  by (auto simp: no_duplicate_crash_def crash_def errcode_crash_def)

lemma json_count_le_1: "json_count j k \<le> 1"
  by (cases j) simp_all

lemma no_duplicate_crash_glUniform:
  "no_duplicate_crash (fst (glUniform func loc args n))"
  "no_duplicate_crash (fst (GLUNIFORM_ARRAYINIT func loc args))"
  by (auto simp: glUniform_def GLUNIFORM_ARRAYINIT_def no_duplicate_crash_basic
      intro!: no_duplicate_crash_seq split: option.splits)

lemma no_duplicate_crash_dispatch:
  "no_duplicate_crash (fst (dispatch w func loc args))"
  by (simp add: dispatch_def no_duplicate_crash_glUniform no_duplicate_crash_crash)

lemma no_duplicate_crash_setUniform: "no_duplicate_crash (fst (setUniform w j i))"
proof -
  have "\<not> 1 < json_count j k" for k
    using json_count_le_1 [of j k] by simp
  then show ?thesis
    unfolding setUniform_def Let_def
    by (intro no_duplicate_crash_seq no_duplicate_crash_basic)
      (auto simp: no_duplicate_crash_basic no_duplicate_crash_crash no_duplicate_crash_dispatch
        intro!: no_duplicate_crash_seq split: option.splits)
qed

lemma no_duplicate_crash_loop: "no_duplicate_crash (fst (setUniforms_loop w j nbUniforms i))"
proof (induction w j nbUniforms i rule: setUniforms_loop.induct)
  case (1 w j nbUniforms i)
  show ?case
    by (subst setUniforms_loop.simps)
      (auto simp: no_duplicate_crash_basic no_duplicate_crash_setUniform 1
        intro!: no_duplicate_crash_seq)
qed

lemma no_duplicate_crash_setUniformsJSON: "no_duplicate_crash (fst (setUniformsJSON w params))"
  unfolding setUniformsJSON_def Let_def isFile_def readFile_def
  by (intro no_duplicate_crash_seq no_duplicate_crash_basic)
    (auto simp: no_duplicate_crash_basic no_duplicate_crash_crash no_duplicate_crash_loop
      intro!: no_duplicate_crash_seq split: option.splits)

lemma setUniforms_loop_once:
  "setUniforms_loop w j 1 0 = seq (setUniform w j 0) (\<lambda>_. ret ())"
  by (simp add: setUniforms_loop.simps [of w j 1 0] setUniforms_loop.simps [of w j 1 1])

text \<open>
  Claim C5 does not hold of the code. With a description that has an entry for \<open>f\<close> and
  one for \<open>f[0]\<close> the uniform \<open>f[0]\<close> is set from the entry \<open>f\<close> and the run goes on; and
  no run of \<open>setUniformsJSON\<close> ends with the crash "more than one JSON entry", since
  \<open>j.count\<close> is never more than 1.
\<close>

theorem setUniformsJSON_duplicate_entries:
  "setUniformsJSON duplicate_world (sample_params\<lparr>fragFilename := ''shader.frag''\<rparr>) =
     ([GL GlGetProgramiv_ACTIVE_UNIFORMS, Probe_file ''shader.json'', Read_file ''shader.json'',
       GL GlGetProgramiv_ACTIVE_UNIFORM_MAX_LENGTH, GL (GlGetActiveUniform 0),
       GL (GlGetUniformLocation ''f''), GL (GlUniform ''glUniform1f'' 0 [1])], Inr ())
   \<and> (\<forall>w params n. Crash (More_than_one_JSON_entry n) \<notin> set (fst (setUniformsJSON w params)))"
proof
  show "setUniformsJSON duplicate_world (sample_params\<lparr>fragFilename := ''shader.frag''\<rparr>) =
     ([GL GlGetProgramiv_ACTIVE_UNIFORMS, Probe_file ''shader.json'', Read_file ''shader.json'',
       GL GlGetProgramiv_ACTIVE_UNIFORM_MAX_LENGTH, GL (GlGetActiveUniform 0),
       GL (GlGetUniformLocation ''f''), GL (GlUniform ''glUniform1f'' 0 [1])], Inr ())"
    by (simp add: setUniformsJSON_def duplicate_world_def sample_world_def sample_params_def
        GL_SAFECALL_ok GL_CHECKERR_ok replace_extension_def isFile_def readFile_def emit_def ret_def
        setUniforms_loop_once setUniform_def json_at_def default_entry_def dispatch_def
        glUniform_def json_args_def Let_def)
  show "\<forall>w params n. Crash (More_than_one_JSON_entry n) \<notin> set (fst (setUniformsJSON w params))"
    using no_duplicate_crash_setUniformsJSON by (simp add: no_duplicate_crash_def)
qed

subsection \<open>The vertical flip\<close>

lemma unat_CHANNELS: "unat CHANNELS = 4"
  by (simp add: CHANNELS_def)

lemma unat_row_index:
  fixes h uwidth col :: uint
  assumes "unat h * (4 * unat uwidth) + unat col < 2 ^ 32"
  shows "unat (h * uwidth * CHANNELS + col) = unat h * (4 * unat uwidth) + unat col"
proof -
  have 1: "unat h * unat uwidth < 2 ^ 32" using assms by simp
  then have a: "unat (h * uwidth) = unat h * unat uwidth"
    by (simp add: unat_word_ariths)
  have 2: "unat h * unat uwidth * 4 < 2 ^ 32" using assms by simp
  then have b: "unat (h * uwidth * CHANNELS) = unat h * unat uwidth * 4"
    by (simp add: unat_word_ariths(2) [of "h * uwidth" CHANNELS] a unat_CHANNELS)
  have 3: "unat h * unat uwidth * 4 + unat col < 2 ^ 32"
    using assms by (simp add: mult.assoc mult.commute)
  have "unat (h * uwidth * CHANNELS + col) = (unat (h * uwidth * CHANNELS) + unat col) mod 2 ^ 32"
    by (simp add: unat_word_ariths(1))
  also have "\<dots> = unat h * unat uwidth * 4 + unat col"
    using 3 by (simp add: b)
  also have "\<dots> = unat h * (4 * unat uwidth) + unat col"
    by simp
  finally show ?thesis .
qed

lemma unat_mirror:
  fixes h uheight :: uint
  assumes "h < uheight"
  shows "unat (uheight - h - 1) = unat uheight - unat h - 1"
proof -
  have lt: "unat h < unat uheight" using assms by (simp add: word_less_nat_alt)
  have a: "unat (uheight - h) = unat uheight - unat h"
    using assms by (simp add: unat_sub)
  have "1 \<le> uheight - h"
    using lt a by (simp add: word_le_nat_alt)
  then show ?thesis by (simp add: unat_sub a)
qed

lemma row_bound: "(r::nat) < H \<Longrightarrow> c < R \<Longrightarrow> r * R + c < R * H"
proof -
  assume "r < H" "c < R"
  then have "r * R + c < (r + 1) * R" by simp
  also have "\<dots> \<le> H * R" using \<open>r < H\<close> by (intro mult_le_mono1) simp
  finally show ?thesis by (simp add: mult.commute)
qed

lemma row_fits: "(r::nat) < H \<Longrightarrow> R * H < B \<Longrightarrow> R < B"
proof -
  assume "r < H" "R * H < B"
  have "R \<le> R * H" using \<open>r < H\<close> by (cases H) auto
  then show ?thesis using \<open>R * H < B\<close> by (rule le_less_trans)
qed

lemma flip_cols_row:
  fixes uwidth uheight h col :: uint
  assumes N: "4 * unat uwidth * unat uheight < 2 ^ 32"
    and h: "h < uheight"
    and c: "unat col \<le> 4 * unat uwidth"
    and ld: "length data = 4 * unat uwidth * unat uheight"
    and lf: "length fl = 4 * unat uwidth * unat uheight"
  shows "\<exists>fl'. flip_cols uwidth uheight h col data fl = Some fl' \<and> length fl' = length fl \<and>
      (\<forall>k < length fl. fl' ! k =
         (if unat h * (4 * unat uwidth) + unat col \<le> k
             \<and> k < unat h * (4 * unat uwidth) + 4 * unat uwidth
          then data ! ((unat uheight - unat h - 1) * (4 * unat uwidth)
                 + (k - unat h * (4 * unat uwidth)))
          else fl ! k))"
  using c lf
proof (induction "4 * unat uwidth - unat col" arbitrary: col fl)
  case 0
  define R where "R = 4 * unat uwidth"
  have r: "unat h < unat uheight" using h by (simp add: word_less_nat_alt)
  have "R * unat uheight < 2 ^ 32" using N by (simp add: R_def)
  with r have RN: "R < 2 ^ 32" by (rule row_fits)
  have "unat uwidth * (4 * unat (1 :: uint)) + unat (0 :: uint) < 2 ^ 32"
    using RN by (simp add: R_def)
  from unat_row_index [OF this] have bound: "unat (uwidth * CHANNELS) = R"
    by (simp add: R_def)
  have "unat col = R" using 0 by (simp add: R_def)
  then have "\<not> col < uwidth * CHANNELS" by (simp add: word_less_nat_alt bound)
  then have "flip_cols uwidth uheight h col data fl = Some fl"
    by (simp add: flip_cols.simps)
  then show ?case using \<open>unat col = R\<close> by (auto simp: R_def)
next
  case (Suc n)
  define R where "R = 4 * unat uwidth"
  define H where "H = unat uheight"
  define r where "r = unat h"
  define cc where "cc = unat col"
  have r: "r < H" using h by (simp add: word_less_nat_alt r_def H_def)
  have cR: "cc < R" using Suc.hyps(2) by (simp add: R_def cc_def)
  have NN: "R * H < 2 ^ 32" using N by (simp add: R_def H_def)
  from r NN have RN: "R < 2 ^ 32" by (rule row_fits)
  have "unat uwidth * (4 * unat (1 :: uint)) + unat (0 :: uint) < 2 ^ 32"
    using RN by (simp add: R_def)
  from unat_row_index [OF this] have bound: "unat (uwidth * CHANNELS) = R"
    by (simp add: R_def)
  have lt: "col < uwidth * CHANNELS" using cR by (simp add: word_less_nat_alt bound cc_def)
  have col1: "unat (col + 1) = cc + 1" using unat_succ_less [OF lt] by (simp add: cc_def)
  have dstN: "r * R + cc < R * H" using r cR by (rule row_bound)
  have "H - r - 1 < H" using r by simp
  then have srcN: "(H - r - 1) * R + cc < R * H" using cR by (rule row_bound)
  have "r * R + cc < 2 ^ 32" using dstN NN by (rule less_trans)
  then have "unat h * (4 * unat uwidth) + unat col < 2 ^ 32"
    unfolding r_def R_def cc_def .
  then have dst: "unat (h * uwidth * CHANNELS + col) = r * R + cc"
    unfolding r_def R_def cc_def by (rule unat_row_index)
  have "(H - r - 1) * R + cc < 2 ^ 32" using srcN NN by (rule less_trans)
  then have "unat (uheight - h - 1) * (4 * unat uwidth) + unat col < 2 ^ 32"
    unfolding r_def R_def cc_def H_def unat_mirror [OF h] .
  then have "unat ((uheight - h - 1) * uwidth * CHANNELS + col) =
      unat (uheight - h - 1) * (4 * unat uwidth) + unat col"
    by (rule unat_row_index)
  then have src: "unat ((uheight - h - 1) * uwidth * CHANNELS + col) = (H - r - 1) * R + cc"
    unfolding r_def R_def cc_def H_def unat_mirror [OF h] .
  have len: "length fl = R * H" "length data = R * H"
    using Suc.prems(2) ld by (simp_all add: R_def H_def)
  let ?fl = "fl[r * R + cc := data ! ((H - r - 1) * R + cc)]"
  have step: "flip_cols uwidth uheight h col data fl = flip_cols uwidth uheight h (col + 1) data ?fl"
    using lt dstN srcN by (subst flip_cols.simps) (simp add: dst src len Let_def)
  have "n = 4 * unat uwidth - unat (col + 1)" using Suc.hyps(2) col1 by (simp add: cc_def)
  moreover have "unat (col + 1) \<le> 4 * unat uwidth" using cR col1 by (simp add: R_def)
  moreover have "length ?fl = 4 * unat uwidth * unat uheight" using Suc.prems(2) by simp
  ultimately obtain fl' where fl': "flip_cols uwidth uheight h (col + 1) data ?fl = Some fl'"
    "length fl' = length ?fl"
    "\<forall>k < length ?fl. fl' ! k =
         (if r * R + (cc + 1) \<le> k \<and> k < r * R + R
          then data ! ((H - r - 1) * R + (k - r * R))
          else ?fl ! k)"
    using Suc.hyps(1) [of "col + 1" ?fl] unfolding col1 R_def H_def r_def by blast
  have "\<forall>k < length fl. fl' ! k =
         (if r * R + cc \<le> k \<and> k < r * R + R
          then data ! ((H - r - 1) * R + (k - r * R))
          else fl ! k)"
  proof (intro allI impI)
    fix k assume k: "k < length fl"
    show "fl' ! k = (if r * R + cc \<le> k \<and> k < r * R + R
          then data ! ((H - r - 1) * R + (k - r * R)) else fl ! k)"
    proof (cases "k = r * R + cc")
      case True
      then show ?thesis using fl'(3) k cR by simp
    next
      case False
      then show ?thesis using fl'(3) k by auto
    qed
  qed
  then show ?case
    using fl'(1,2) step by (simp add: R_def H_def r_def cc_def)
qed

lemma flip_rows_all:
  fixes uwidth uheight h :: uint
  assumes N: "4 * unat uwidth * unat uheight < 2 ^ 32"
    and h: "unat h \<le> unat uheight"
    and ld: "length data = 4 * unat uwidth * unat uheight"
    and lf: "length fl = 4 * unat uwidth * unat uheight"
  shows "\<exists>fl'. flip_rows uwidth uheight h data fl = Some fl' \<and> length fl' = length fl \<and>
      (\<forall>k < length fl. fl' ! k =
         (if unat h * (4 * unat uwidth) \<le> k
          then data ! ((unat uheight - 1 - k div (4 * unat uwidth)) * (4 * unat uwidth)
                 + k mod (4 * unat uwidth))
          else fl ! k))"
  using h lf
proof (induction "unat uheight - unat h" arbitrary: h fl)
  case 0
  then have eq: "unat h = unat uheight" by simp
  then have "\<not> h < uheight" by (simp add: word_less_nat_alt)
  then have "flip_rows uwidth uheight h data fl = Some fl"
    by (simp add: flip_rows.simps)
  then show ?case using 0(3) by (simp add: eq mult.commute)
next
  case (Suc n)
  define R where "R = 4 * unat uwidth"
  define H where "H = unat uheight"
  define r where "r = unat h"
  have r: "r < H" using Suc.hyps(2) by (simp add: r_def H_def)
  then have lt: "h < uheight" by (simp add: word_less_nat_alt r_def H_def)
  have h1: "unat (h + 1) = r + 1" using unat_succ_less [OF lt] by (simp add: r_def)
  have len: "length fl = R * H" using Suc.prems(2) by (simp add: R_def H_def)
  obtain fl1 where fl1: "flip_cols uwidth uheight h 0 data fl = Some fl1" "length fl1 = length fl"
    "\<forall>k < length fl. fl1 ! k =
       (if r * R \<le> k \<and> k < r * R + R then data ! ((H - r - 1) * R + (k - r * R)) else fl ! k)"
    using flip_cols_row [OF N lt _ ld Suc.prems(2), of 0] unfolding R_def H_def r_def by auto
  have step: "flip_rows uwidth uheight h data fl = flip_rows uwidth uheight (h + 1) data fl1"
    using lt fl1(1) by (subst flip_rows.simps) simp
  have "n = unat uheight - unat (h + 1)" using Suc.hyps(2) h1 by (simp add: r_def)
  moreover have "unat (h + 1) \<le> unat uheight" using r h1 by (simp add: H_def)
  moreover have "length fl1 = 4 * unat uwidth * unat uheight" using fl1(2) Suc.prems(2) by simp
  ultimately obtain fl' where fl': "flip_rows uwidth uheight (h + 1) data fl1 = Some fl'"
    "length fl' = length fl1"
    "\<forall>k < length fl1. fl' ! k =
       (if (r + 1) * R \<le> k then data ! ((H - 1 - k div R) * R + k mod R) else fl1 ! k)"
    using Suc.hyps(1) [of "h + 1" fl1] unfolding h1 R_def H_def by blast
  have "\<forall>k < length fl. fl' ! k =
       (if r * R \<le> k then data ! ((H - 1 - k div R) * R + k mod R) else fl ! k)"
  proof (intro allI impI)
    fix k assume k: "k < length fl"
    show "fl' ! k = (if r * R \<le> k then data ! ((H - 1 - k div R) * R + k mod R) else fl ! k)"
    proof (cases "(r + 1) * R \<le> k")
      case True
      then have "r * R \<le> k" by simp
      then show ?thesis using fl'(3) k True fl1(2) by simp
    next
      case False
      then have a: "fl' ! k = fl1 ! k" using fl'(3) k fl1(2) by simp
      show ?thesis
      proof (cases "r * R \<le> k")
        case le: True
        have kd: "k div R = r"
          using le False by (intro div_nat_eqI) (simp_all add: mult.commute)
        have "k mod R = k - r * R"
          using kd by (simp add: modulo_nat_def)
        then show ?thesis using a fl1(3) k le False kd by simp
      next
        case ge: False
        then show ?thesis using a fl1(3) k by simp
      qed
    qed
  qed
  then show ?case using fl'(1,2) fl1(2) step by (simp add: R_def H_def r_def)
qed

lemma flip_rows_of_data:
  fixes uwidth uheight :: uint
  assumes N: "4 * unat uwidth * unat uheight < 2 ^ 32"
    and ld: "length data = 4 * unat uwidth * unat uheight"
  shows "\<exists>flipped_data. flip uwidth uheight data = Some flipped_data
      \<and> length flipped_data = length data
      \<and> (\<forall>i < unat uheight.
            take (4 * unat uwidth) (drop (i * (4 * unat uwidth)) flipped_data) =
            take (4 * unat uwidth) (drop ((unat uheight - 1 - i) * (4 * unat uwidth)) data))"
proof -
  define R where "R = 4 * unat uwidth"
  define H where "H = unat uheight"
  have "unat uwidth * (4 * unat uheight) + unat (0 :: uint) < 2 ^ 32"
    using N by (simp add: mult.assoc mult.commute)
  from unat_row_index [OF this] have size: "unat (uwidth * uheight * CHANNELS) = R * H"
    by (simp add: R_def H_def)
  let ?zero = "replicate (R * H) (0 :: byte)"
  have "length ?zero = 4 * unat uwidth * unat uheight" by (simp add: R_def H_def)
  from flip_rows_all [OF N _ ld this, of 0]
  obtain fl where fl: "flip_rows uwidth uheight 0 data ?zero = Some fl" "length fl = R * H"
    "\<forall>k < R * H. fl ! k = data ! ((H - 1 - k div R) * R + k mod R)"
    unfolding R_def H_def by auto
  have rows: "take R (drop (i * R) fl) = take R (drop ((H - 1 - i) * R) data)" if i: "i < H" for i
  proof (rule nth_equalityI)
    have 1: "i * R + R \<le> R * H"
      using i mult_le_mono1 [of "i + 1" H R] by (simp add: mult.commute)
    have "H - 1 - i < H" using i by simp
    then have 2: "(H - 1 - i) * R + R \<le> R * H"
      using mult_le_mono1 [of "H - 1 - i + 1" H R] by (simp add: mult.commute)
    show "length (take R (drop (i * R) fl)) = length (take R (drop ((H - 1 - i) * R) data))"
      using 1 2 fl(2) ld by (simp add: R_def [symmetric] H_def [symmetric])
    fix c assume "c < length (take R (drop (i * R) fl))"
    then have c: "c < R" by simp
    then have "i * R + c < R * H" using 1 by simp
    then have "fl ! (i * R + c) = data ! ((H - 1 - (i * R + c) div R) * R + (i * R + c) mod R)"
      using fl(3) by simp
    then have eq: "fl ! (i * R + c) = data ! ((H - 1 - i) * R + c)"
      using c by simp
    have "i * R \<le> R * H" "(H - 1 - i) * R \<le> R * H" using 1 2 by linarith+
    then have le1: "i * R \<le> length fl" and le2: "(H - 1 - i) * R \<le> length data"
      unfolding fl(2) ld R_def H_def by (simp_all only: mult.assoc)
    have "take R (drop (i * R) fl) ! c = fl ! (i * R + c)"
      using c le1 by (simp add: nth_drop)
    moreover have "take R (drop ((H - 1 - i) * R) data) ! c = data ! ((H - 1 - i) * R + c)"
      using c le2 by (simp add: nth_drop)
    ultimately show "take R (drop (i * R) fl) ! c = take R (drop ((H - 1 - i) * R) data) ! c"
      using eq by simp
  qed
  have "flip uwidth uheight data = Some fl"
    using fl(1) by (simp add: flip_def size)
  then show ?thesis
    using fl(2) ld rows by (simp add: R_def H_def)
qed

text \<open>
  Claim C8. For a width and a height whose buffer size \<open>4 * width * height\<close> fits an
  \<open>unsigned int\<close>, and a readback buffer of that many bytes, the two loops of \<open>savePNG\<close>
  give a buffer of the same size in which row \<open>i\<close> (all \<open>4 * width\<close> bytes of it) is row
  \<open>height - 1 - i\<close> of the readback buffer, for every \<open>i\<close> below the height; this buffer is
  what \<open>savePNG\<close> hands to the encoder.
\<close>

theorem savePNG_flips_rows:
  "length data = 4 * unat uwidth * unat uheight \<and> 4 * unat uwidth * unat uheight < 2 ^ 32 \<longrightarrow>
     (\<exists>flipped_data. flip uwidth uheight data = Some flipped_data
        \<and> length flipped_data = length data
        \<and> (\<forall>i < unat uheight.
              take (4 * unat uwidth) (drop (i * (4 * unat uwidth)) flipped_data) =
              take (4 * unat uwidth) (drop ((unat uheight - 1 - i) * (4 * unat uwidth)) data))
        \<and> (uwidth = word_of_int (width params) \<and> uheight = word_of_int (height params)
             \<and> read_pixels w (unat uwidth) (unat uheight) = data
             \<and> \<not> gl_error w (GlReadPixels (unat uwidth) (unat uheight)) \<longrightarrow>
             fst (savePNG w params) =
               [GL (GlReadPixels (unat uwidth) (unat uheight)),
                Lodepng_encode (outputFilename params) flipped_data (unat uwidth) (unat uheight)] @
               (if png_error w = 0 then [] else [Crash (Lodepng_error (png_error w))])))"
proof
  assume a: "length data = 4 * unat uwidth * unat uheight \<and> 4 * unat uwidth * unat uheight < 2 ^ 32"
  then obtain flipped_data where f: "flip uwidth uheight data = Some flipped_data"
    "length flipped_data = length data"
    "\<forall>i < unat uheight.
        take (4 * unat uwidth) (drop (i * (4 * unat uwidth)) flipped_data) =
        take (4 * unat uwidth) (drop ((unat uheight - 1 - i) * (4 * unat uwidth)) data)"
    using flip_rows_of_data [of uwidth uheight data] by blast
  have "unat uwidth * (4 * unat uheight) + unat (0 :: uint) < 2 ^ 32"
    using a by (simp add: mult.assoc mult.commute)
  from unat_row_index [OF this] have size: "unat (uwidth * uheight * CHANNELS) = length data"
    using a by simp
  have "fst (savePNG w params) =
      [GL (GlReadPixels (unat uwidth) (unat uheight)),
       Lodepng_encode (outputFilename params) flipped_data (unat uwidth) (unat uheight)] @
      (if png_error w = 0 then [] else [Crash (Lodepng_error (png_error w))])"
    if "uwidth = word_of_int (width params) \<and> uheight = word_of_int (height params)
        \<and> read_pixels w (unat uwidth) (unat uheight) = data
        \<and> \<not> gl_error w (GlReadPixels (unat uwidth) (unat uheight))"
    using that f(1) size
    by (auto simp: savePNG_def Let_def GL_SAFECALL_ok emit_def ret_def crash_def errcode_crash_def)
  then show "\<exists>flipped_data. flip uwidth uheight data = Some flipped_data
        \<and> length flipped_data = length data
        \<and> (\<forall>i < unat uheight.
              take (4 * unat uwidth) (drop (i * (4 * unat uwidth)) flipped_data) =
              take (4 * unat uwidth) (drop ((unat uheight - 1 - i) * (4 * unat uwidth)) data))
        \<and> (uwidth = word_of_int (width params) \<and> uheight = word_of_int (height params)
             \<and> read_pixels w (unat uwidth) (unat uheight) = data
             \<and> \<not> gl_error w (GlReadPixels (unat uwidth) (unat uheight)) \<longrightarrow>
             fst (savePNG w params) =
               [GL (GlReadPixels (unat uwidth) (unat uheight)),
                Lodepng_encode (outputFilename params) flipped_data (unat uwidth) (unat uheight)] @
               (if png_error w = 0 then [] else [Crash (Lodepng_error (png_error w))]))"
    using f by blast
qed

lemma flip_sample: "flip 1 2 [1, 2, 3, 4, 5, 6, 7, 8] = Some [5, 6, 7, 8, 1, 2, 3, 4]"
  by code_simp

theorem savePNG_flips_rows_witness:
  "flip 1 2 [1, 2, 3, 4, 5, 6, 7, 8] = Some [5, 6, 7, 8, 1, 2, 3, 4]
   \<and> fst (savePNG (sample_world\<lparr>read_pixels := (\<lambda>w h. [1, 2, 3, 4, 5, 6, 7, 8])\<rparr>)
          (sample_params\<lparr>width := 1, height := 2\<rparr>)) =
       [GL (GlReadPixels 1 2), Lodepng_encode [] [5, 6, 7, 8, 1, 2, 3, 4] 1 2]"
  using savePNG_flips_rows [where data = "[1, 2, 3, 4, 5, 6, 7, 8]" and uwidth = 1 and uheight = 2
      and params = "sample_params\<lparr>width := 1, height := 2\<rparr>"
      and w = "sample_world\<lparr>read_pixels := (\<lambda>w h. [1, 2, 3, 4, 5, 6, 7, 8])\<rparr>"]
  by (simp add: flip_sample sample_world_def sample_params_def)

subsection \<open>The render loop\<close>

lemma captures_append [simp]: "captures (a @ b) = captures a + captures b"
  by (simp add: captures_def)

lemma captures_Nil [simp]: "captures [] = 0"
  by (simp add: captures_def)

lemma captures_Cons [simp]: "captures (e # tr) = (if is_capture e then 1 else 0) + captures tr"
  by (simp add: captures_def)

lemma frames_append [simp]: "frames (a @ b) = frames a + frames b"
  by (simp add: frames_def)

lemma frames_Nil [simp]: "frames [] = 0"
  by (simp add: frames_def)

lemma frames_Cons [simp]: "frames (e # tr) = (if e = Context_swap then 1 else 0) + frames tr"
  by (simp add: frames_def)

lemma captures_seq:
  "captures (fst (seq m f)) =
     captures (fst m) + (case snd m of Inl out \<Rightarrow> 0 | Inr a \<Rightarrow> captures (fst (f a)))"
  by (cases m; cases "snd m") (simp_all add: seq_def)

lemma captures_GL_SAFECALL: "captures (fst (GL_SAFECALL w c)) = (if is_capture (GL c) then 1 else 0)"
  by (simp add: GL_SAFECALL_def GL_CHECKERR_def emit_def ret_def crash_def errcode_crash_def
      seq_def)

lemma frames_GL_SAFECALL: "frames (fst (GL_SAFECALL w c)) = 0"
  by (simp add: GL_SAFECALL_def GL_CHECKERR_def emit_def ret_def crash_def errcode_crash_def
      seq_def)

lemma frames_seq:
  "frames (fst (seq m f)) =
     frames (fst m) + (case snd m of Inl out \<Rightarrow> 0 | Inr a \<Rightarrow> frames (fst (f a)))"
  by (cases m; cases "snd m") (simp_all add: seq_def)

lemma captures_openglRender: "captures (fst (openglRender w params)) = 0"
  by (simp add: openglRender_def captures_seq captures_GL_SAFECALL ret_def split: sum.splits)

lemma frames_openglRender: "frames (fst (openglRender w params)) = 0"
  by (simp add: openglRender_def frames_seq frames_GL_SAFECALL ret_def split: sum.splits)

lemma captures_savePNG: "captures (fst (savePNG w params)) = 1"
  by (simp add: savePNG_def Let_def captures_seq captures_GL_SAFECALL stop_def emit_def ret_def
      crash_def errcode_crash_def split: sum.splits option.splits)

lemma captures_saved:
  "captures (fst (main_loop fuel ops w params c numFrames True)) = 0"
proof (induction fuel arbitrary: c numFrames)
  case 0
  then show ?case by (simp add: stop_def)
next
  case (Suc fuel)
  then show ?case
    by (simp add: captures_seq captures_openglRender emit_def ret_def stop_def split: sum.splits)
qed

lemma captures_at_most_once:
  "captures (fst (main_loop fuel ops w params c numFrames saved)) \<le> 1"
proof (induction fuel arbitrary: c numFrames)
  case 0
  then show ?case by (simp add: stop_def)
next
  case (Suc fuel)
  then show ?case
    by (simp add: captures_seq captures_openglRender captures_savePNG captures_saved emit_def
        ret_def stop_def split: sum.splits)
qed

lemma main_loop_reaches_capture:
  assumes render: "openglRender w params = (rt, Inr ())"
    and d: "numFrames + 1 + int m = delay params" "delay params \<le> INT_MAX"
    and keep: "\<forall>k \<le> m. contextKeepLooping ops ((contextSwap ops ^^ k) c)"
  shows "main_loop (Suc m + fuel) ops w params c numFrames False =
     seq (concat (replicate (Suc m) (rt @ [Context_swap])), Inr ()) (\<lambda>_.
     seq (savePNG w params) (\<lambda>_.
       after_capture fuel ops w params ((contextSwap ops ^^ Suc m) c)))"
  using d keep
proof (induction m arbitrary: c numFrames)
  case 0
  then have "contextKeepLooping ops c" "numFrames \<noteq> INT_MAX" "numFrames + 1 = delay params"
    by auto
  then show ?case
    by (simp add: render emit_def after_capture_def)
next
  case (Suc m)
  have k0: "contextKeepLooping ops c" using Suc.prems(3) by (auto dest: spec [of _ 0])
  have ne: "numFrames \<noteq> INT_MAX" "numFrames + 1 \<noteq> delay params"
    using Suc.prems(1,2) by auto
  have "\<forall>k \<le> m. contextKeepLooping ops ((contextSwap ops ^^ k) (contextSwap ops c))"
  proof (intro allI impI)
    fix k assume "k \<le> m"
    then have "contextKeepLooping ops ((contextSwap ops ^^ Suc k) c)"
      using Suc.prems(3) by (auto dest: spec [of _ "Suc k"])
    then show "contextKeepLooping ops ((contextSwap ops ^^ k) (contextSwap ops c))"
      by (simp add: funpow_swap1)
  qed
  moreover have "numFrames + 1 + 1 + int m = delay params" using Suc.prems(1) by simp
  ultimately have IH: "main_loop (Suc m + fuel) ops w params (contextSwap ops c) (numFrames + 1) False =
     seq (concat (replicate (Suc m) (rt @ [Context_swap])), Inr ()) (\<lambda>_.
     seq (savePNG w params) (\<lambda>_.
       after_capture fuel ops w params ((contextSwap ops ^^ Suc m) (contextSwap ops c))))"
    using Suc.IH [of "numFrames + 1" "contextSwap ops c"] Suc.prems(2) by simp
  have "main_loop (Suc (Suc m) + fuel) ops w params c numFrames False =
     seq (rt @ [Context_swap], Inr ()) (\<lambda>_.
       main_loop (Suc m + fuel) ops w params (contextSwap ops c) (numFrames + 1) False)"
    using k0 ne by (simp add: render emit_def)
  then show ?case
    unfolding IH by (simp add: funpow_swap1)
qed

lemma captures_concat_replicate: "captures (concat (replicate n tr)) = n * captures tr"
  by (induction n) simp_all

lemma frames_concat_replicate: "frames (concat (replicate n tr)) = n * frames tr"
  by (induction n) simp_all

lemma captures_after_capture: "captures (fst (after_capture fuel ops w params c)) = 0"
  by (simp add: after_capture_def captures_seq captures_saved emit_def ret_def)

lemma keep_looping_le:
  "1 \<le> d \<Longrightarrow> \<forall>k < nat d. contextKeepLooping ops ((contextSwap ops ^^ k) c) \<Longrightarrow>
   \<forall>k \<le> nat d - 1. contextKeepLooping ops ((contextSwap ops ^^ k) c)"
  by auto

lemma main_loop_capture:
  assumes "openglRender w params = (rt, Inr ())" "1 \<le> delay params" "delay params \<le> INT_MAX"
    and "nat (delay params) \<le> fuel"
    and "\<forall>k < nat (delay params). contextKeepLooping ops ((contextSwap ops ^^ k) c)"
  shows "main_loop fuel ops w params c 0 False =
     seq (concat (replicate (nat (delay params)) (rt @ [Context_swap])), Inr ()) (\<lambda>_.
     seq (savePNG w params) (\<lambda>_.
       after_capture (fuel - nat (delay params)) ops w params
         ((contextSwap ops ^^ nat (delay params)) c)))"
proof -
  define m where "m = nat (delay params) - 1"
  have d: "nat (delay params) = Suc m" using assms(2) by (simp add: m_def)
  have "0 + 1 + int m = delay params" using assms(2) by (simp add: m_def)
  moreover have "\<forall>k \<le> m. contextKeepLooping ops ((contextSwap ops ^^ k) c)"
    using assms(5) d by simp
  ultimately have "main_loop (Suc m + (fuel - Suc m)) ops w params c 0 False =
     seq (concat (replicate (Suc m) (rt @ [Context_swap])), Inr ()) (\<lambda>_.
     seq (savePNG w params) (\<lambda>_.
       after_capture (fuel - Suc m) ops w params ((contextSwap ops ^^ Suc m) c)))"
    using assms(1,3) by (intro main_loop_reaches_capture)
  moreover have "Suc m + (fuel - Suc m) = fuel" using assms(4) d by simp
  ultimately show ?thesis by (simp only: d)
qed

text \<open>
  Claim C1, as amended. In every run of the render loop \<open>savePNG\<close> is called at most once.
  When the delay is at least 1 and the loop is kept running for that many frames (the
  window stays open, rendering raises no error, and the loop is observed for that long),
  then \<open>savePNG\<close> is called exactly once: the events before it are the frames up to the one
  on which the frame counter equals the delay, with no capture among them, and no capture
  follows it. The frame counter is incremented before it is compared, so it is 1 on the
  first frame.
\<close>

theorem capture_once_at_delay:
  "captures (fst (main_loop fuel ops w params c 0 False)) \<le> 1
   \<and> (openglRender w params = (rt, Inr ()) \<and> 1 \<le> delay params \<and> delay params \<le> INT_MAX
        \<and> nat (delay params) \<le> fuel
        \<and> (\<forall>k < nat (delay params). contextKeepLooping ops ((contextSwap ops ^^ k) c)) \<longrightarrow>
      (\<exists>rest. fst (main_loop fuel ops w params c 0 False) =
           concat (replicate (nat (delay params)) (rt @ [Context_swap])) @
           fst (savePNG w params) @ rest
         \<and> captures (concat (replicate (nat (delay params)) (rt @ [Context_swap]))) = 0
         \<and> frames (concat (replicate (nat (delay params)) (rt @ [Context_swap]))) = nat (delay params)
         \<and> captures (fst (savePNG w params)) = 1
         \<and> captures rest = 0))"
proof (rule conjI; (rule impI)?)
  show "captures (fst (main_loop fuel ops w params c 0 False)) \<le> 1"
    by (rule captures_at_most_once)
next
  assume a: "openglRender w params = (rt, Inr ()) \<and> 1 \<le> delay params \<and> delay params \<le> INT_MAX
        \<and> nat (delay params) \<le> fuel
        \<and> (\<forall>k < nat (delay params). contextKeepLooping ops ((contextSwap ops ^^ k) c))"
  let ?pre = "concat (replicate (nat (delay params)) (rt @ [Context_swap]))"
  let ?after = "after_capture (fuel - nat (delay params)) ops w params
         ((contextSwap ops ^^ nat (delay params)) c)"
  let ?rest = "case snd (savePNG w params) of Inl out \<Rightarrow> [] | Inr u \<Rightarrow> fst ?after"
  have eq: "main_loop fuel ops w params c 0 False =
      seq (?pre, Inr ()) (\<lambda>_. seq (savePNG w params) (\<lambda>_. ?after))"
    using a by (intro main_loop_capture) simp_all
  have rt: "captures rt = 0" "frames rt = 0"
    using captures_openglRender [of w params] frames_openglRender [of w params] a by simp_all
  have 1: "fst (main_loop fuel ops w params c 0 False) = ?pre @ fst (savePNG w params) @ ?rest"
    unfolding eq by (cases "savePNG w params"; cases "snd (savePNG w params)") (simp_all add: seq_def)
  have 2: "captures ?rest = 0"
    by (simp add: captures_after_capture split: sum.splits)
  have 3: "captures ?pre = 0" "frames ?pre = nat (delay params)"
    by (simp_all add: captures_concat_replicate frames_concat_replicate rt)
  show "\<exists>rest. fst (main_loop fuel ops w params c 0 False) = ?pre @ fst (savePNG w params) @ rest
         \<and> captures ?pre = 0 \<and> frames ?pre = nat (delay params)
         \<and> captures (fst (savePNG w params)) = 1 \<and> captures rest = 0"
    using 1 2 3 captures_savePNG by blast
qed

lemma blocking_window_swaps:
  "(contextSwap blocking_window ^^ k) c = (\<lambda>n. c (n + k))"
  by (induction k arbitrary: c) (simp_all add: blocking_window_def funpow_swap1)

text \<open>
  Claim C9. Without persist mode the loop ends with \<open>savePNG\<close>: nothing follows the
  capture, for every window. In persist mode, with the window of the specification, whose
  key operation waits for a key and closes the window, the capture is followed by the
  message and the wait, and the loop ends there without another frame.
\<close>

theorem persist_waits_for_key:
  "(openglRender w params = (rt, Inr ()) \<and> 1 \<le> delay params \<and> delay params \<le> INT_MAX
      \<and> nat (delay params) \<le> fuel
      \<and> (\<forall>k < nat (delay params). contextKeepLooping ops ((contextSwap ops ^^ k) c))
      \<and> \<not> persist params \<longrightarrow>
    main_loop fuel ops w params c 0 False =
      (concat (replicate (nat (delay params)) (rt @ [Context_swap])) @ fst (savePNG w params),
       snd (savePNG w params)))
   \<and> (openglRender w params = (rt, Inr ()) \<and> 1 \<le> delay params \<and> delay params \<le> INT_MAX
      \<and> nat (delay params) < fuel
      \<and> (\<forall>k < nat (delay params). window k)
      \<and> persist params \<and> snd (savePNG w params) = Inr () \<longrightarrow>
    main_loop fuel blocking_window w params window 0 False =
      (concat (replicate (nat (delay params)) (rt @ [Context_swap])) @ fst (savePNG w params) @
       [Stdout ''Press any key to close the window...\<newline>'', Context_set_key_callback],
       Inr ()))"
proof (rule conjI; rule impI)
  assume a: "openglRender w params = (rt, Inr ()) \<and> 1 \<le> delay params \<and> delay params \<le> INT_MAX
      \<and> nat (delay params) \<le> fuel
      \<and> (\<forall>k < nat (delay params). contextKeepLooping ops ((contextSwap ops ^^ k) c))
      \<and> \<not> persist params"
  then have "main_loop fuel ops w params c 0 False =
     seq (concat (replicate (nat (delay params)) (rt @ [Context_swap])), Inr ()) (\<lambda>_.
     seq (savePNG w params) (\<lambda>_.
       after_capture (fuel - nat (delay params)) ops w params
         ((contextSwap ops ^^ nat (delay params)) c)))"
    by (intro main_loop_capture) simp_all
  then show "main_loop fuel ops w params c 0 False =
      (concat (replicate (nat (delay params)) (rt @ [Context_swap])) @ fst (savePNG w params),
       snd (savePNG w params))"
    using a
    by (cases "savePNG w params"; cases "snd (savePNG w params)")
      (simp_all add: seq_def after_capture_def ret_def)
next
  assume a: "openglRender w params = (rt, Inr ()) \<and> 1 \<le> delay params \<and> delay params \<le> INT_MAX
      \<and> nat (delay params) < fuel
      \<and> (\<forall>k < nat (delay params). window k)
      \<and> persist params \<and> snd (savePNG w params) = Inr ()"
  obtain fuel' where fuel': "fuel - nat (delay params) = Suc fuel'"
    using a by (cases "fuel - nat (delay params)") auto
  have "\<forall>k < nat (delay params).
      contextKeepLooping blocking_window ((contextSwap blocking_window ^^ k) window)"
    using a by (simp add: blocking_window_swaps) (simp add: blocking_window_def)
  with a have "main_loop fuel blocking_window w params window 0 False =
     seq (concat (replicate (nat (delay params)) (rt @ [Context_swap])), Inr ()) (\<lambda>_.
     seq (savePNG w params) (\<lambda>_.
       after_capture (fuel - nat (delay params)) blocking_window w params
         ((contextSwap blocking_window ^^ nat (delay params)) window)))"
    by (intro main_loop_capture) simp_all
  moreover have "after_capture (Suc fuel') blocking_window w params c' =
      ([Stdout ''Press any key to close the window...\<newline>'', Context_set_key_callback], Inr ())"
    for c'
    using a by (simp add: after_capture_def emit_def ret_def) (simp add: blocking_window_def)
  ultimately show "main_loop fuel blocking_window w params window 0 False =
      (concat (replicate (nat (delay params)) (rt @ [Context_swap])) @ fst (savePNG w params) @
       [Stdout ''Press any key to close the window...\<newline>'', Context_set_key_callback],
       Inr ())"
    using a fuel'
    by (cases "savePNG w params") (simp add: seq_def)
qed

lemma openglRender_sample:
  "openglRender sample_world params =
     ([GL GlClearColor, GL GlClear, GL (GlDrawArrays 0 3), GL (GlDrawArrays 3 3), GL GlFlush],
      Inr ())"
  by (simp add: openglRender_def GL_SAFECALL_ok sample_world_def ret_def)

lemma savePNG_sample:
  "savePNG sample_world (sample_params\<lparr>persist := b, delay := d\<rparr>) =
     ([GL (GlReadPixels 0 0), Lodepng_encode [] [] 0 0], Inr ())"
  by (simp add: savePNG_def sample_world_def sample_params_def GL_SAFECALL_ok flip_def
      flip_rows.simps emit_def ret_def)

lemma counting_window_keeps:
  "\<forall>k < nat 2. contextKeepLooping counting_window ((contextSwap counting_window ^^ k) 5)"
  by (auto simp: counting_window_def less_Suc_eq numeral_2_eq_2)

theorem capture_once_at_delay_witness:
  "delay (sample_params\<lparr>persist := False, delay := 2\<rparr>) = 2
   \<and> contextKeepLooping counting_window 5
   \<and> contextKeepLooping counting_window (contextSwap counting_window 5)
   \<and> captures (fst (main_loop 4 counting_window sample_world
         (sample_params\<lparr>persist := False, delay := 2\<rparr>) 5 0 False)) = 1
   \<and> frames (takeWhile (\<lambda>e. \<not> is_capture e) (fst (main_loop 4 counting_window sample_world
         (sample_params\<lparr>persist := False, delay := 2\<rparr>) 5 0 False))) = 2"
proof -
  let ?p = "sample_params\<lparr>persist := False, delay := 2\<rparr>"
  let ?rt = "[GL GlClearColor, GL GlClear, GL (GlDrawArrays 0 3), GL (GlDrawArrays 3 3), GL GlFlush]"
  have "openglRender sample_world ?p = (?rt, Inr ()) \<and> 1 \<le> delay ?p \<and> delay ?p \<le> INT_MAX
        \<and> nat (delay ?p) \<le> 4
        \<and> (\<forall>k < nat (delay ?p). contextKeepLooping counting_window
              ((contextSwap counting_window ^^ k) 5))"
    using counting_window_keeps by (simp add: openglRender_sample INT_MAX_def)
  from capture_once_at_delay [where fuel = 4 and ops = counting_window and w = sample_world
      and params = ?p and c = 5 and rt = ?rt, THEN conjunct2, THEN mp, OF this]
  obtain rest where "fst (main_loop 4 counting_window sample_world ?p 5 0 False) =
      concat (replicate (nat (delay ?p)) (?rt @ [Context_swap])) @ fst (savePNG sample_world ?p) @ rest"
    "captures rest = 0"
    by blast
  then show ?thesis
    by (simp add: savePNG_sample counting_window_def numeral_2_eq_2)
qed

text \<open>
  The claim as it was stated fails in two ways. With the delay 0 the frame counter, which is
  1 on the first frame, never equals the delay: a window that stays open for three frames
  gives three frames and no capture. With the default delay 5 a window that is closed after
  two frames ends the loop before any capture.
\<close>

theorem capture_once_at_delay_counterexample:
  "captures (fst (main_loop 10 counting_window sample_world
       (sample_params\<lparr>persist := False, delay := 0\<rparr>) 3 0 False)) = 0
   \<and> frames (fst (main_loop 10 counting_window sample_world
       (sample_params\<lparr>persist := False, delay := 0\<rparr>) 3 0 False)) = 3
   \<and> snd (main_loop 10 counting_window sample_world
       (sample_params\<lparr>persist := False, delay := 0\<rparr>) 3 0 False) = Inr ()
   \<and> captures (fst (main_loop 10 counting_window sample_world
       (sample_params\<lparr>persist := False, delay := 5\<rparr>) 2 0 False)) = 0
   \<and> snd (main_loop 10 counting_window sample_world
       (sample_params\<lparr>persist := False, delay := 5\<rparr>) 2 0 False) = Inr ()"
  by code_simp

theorem persist_waits_for_key_witness:
  "main_loop 2 counting_window sample_world (sample_params\<lparr>persist := False, delay := 2\<rparr>) 5 0 False =
     ([GL GlClearColor, GL GlClear, GL (GlDrawArrays 0 3), GL (GlDrawArrays 3 3), GL GlFlush,
       Context_swap,
       GL GlClearColor, GL GlClear, GL (GlDrawArrays 0 3), GL (GlDrawArrays 3 3), GL GlFlush,
       Context_swap,
       GL (GlReadPixels 0 0), Lodepng_encode [] [] 0 0], Inr ())
   \<and> main_loop 3 blocking_window sample_world (sample_params\<lparr>persist := True, delay := 2\<rparr>)
       (\<lambda>n. True) 0 False =
     ([GL GlClearColor, GL GlClear, GL (GlDrawArrays 0 3), GL (GlDrawArrays 3 3), GL GlFlush,
       Context_swap,
       GL GlClearColor, GL GlClear, GL (GlDrawArrays 0 3), GL (GlDrawArrays 3 3), GL GlFlush,
       Context_swap,
       GL (GlReadPixels 0 0), Lodepng_encode [] [] 0 0,
       Stdout ''Press any key to close the window...\<newline>'', Context_set_key_callback], Inr ())"
proof -
  let ?p = "sample_params\<lparr>persist := False, delay := 2\<rparr>"
  let ?q = "sample_params\<lparr>persist := True, delay := 2\<rparr>"
  let ?rt = "[GL GlClearColor, GL GlClear, GL (GlDrawArrays 0 3), GL (GlDrawArrays 3 3), GL GlFlush]"
  have "openglRender sample_world ?p = (?rt, Inr ()) \<and> 1 \<le> delay ?p \<and> delay ?p \<le> INT_MAX
        \<and> nat (delay ?p) \<le> 2
        \<and> (\<forall>k < nat (delay ?p). contextKeepLooping counting_window
              ((contextSwap counting_window ^^ k) 5))
        \<and> \<not> persist ?p"
    using counting_window_keeps by (simp add: openglRender_sample INT_MAX_def)
  from persist_waits_for_key [where fuel = 2 and ops = counting_window and w = sample_world
      and params = ?p and c = 5 and rt = ?rt, THEN conjunct1, THEN mp, OF this]
  have A: "main_loop 2 counting_window sample_world ?p 5 0 False =
     (?rt @ [Context_swap] @ ?rt @ [Context_swap] @
      [GL (GlReadPixels 0 0), Lodepng_encode [] [] 0 0], Inr ())"
    by (simp add: savePNG_sample numeral_2_eq_2)
  have "openglRender sample_world ?q = (?rt, Inr ()) \<and> 1 \<le> delay ?q \<and> delay ?q \<le> INT_MAX
        \<and> nat (delay ?q) < 3
        \<and> (\<forall>k < nat (delay ?q). (\<lambda>n. True) k)
        \<and> persist ?q \<and> snd (savePNG sample_world ?q) = Inr ()"
    by (simp add: openglRender_sample INT_MAX_def savePNG_sample)
  from persist_waits_for_key [where fuel = 3 and w = sample_world
      and params = ?q and window = "\<lambda>n. True" and rt = ?rt, THEN conjunct2, THEN mp, OF this]
  have B: "main_loop 3 blocking_window sample_world ?q (\<lambda>n. True) 0 False =
     (?rt @ [Context_swap] @ ?rt @ [Context_swap] @
      [GL (GlReadPixels 0 0), Lodepng_encode [] [] 0 0,
       Stdout ''Press any key to close the window...\<newline>'', Context_set_key_callback], Inr ())"
    by (simp add: savePNG_sample numeral_2_eq_2)
  from A B show ?thesis by simp
qed

text \<open>
  The second half of the last theorem rests on the blocking wait. With a window whose key
  operation returns at once and leaves the window open, the same loop goes on rendering
  until the window is closed, without a second capture.
\<close>

lemma persist_with_open_window:
  "main_loop 10 counting_window sample_world (sample_params\<lparr>persist := True, delay := 1\<rparr>) 2 0 False =
     ([GL GlClearColor, GL GlClear, GL (GlDrawArrays 0 3), GL (GlDrawArrays 3 3), GL GlFlush,
       Context_swap,
       GL (GlReadPixels 0 0), Lodepng_encode [] [] 0 0,
       Stdout ''Press any key to close the window...\<newline>'', Context_set_key_callback,
       GL GlClearColor, GL GlClear, GL (GlDrawArrays 0 3), GL (GlDrawArrays 3 3), GL GlFlush,
       Context_swap], Inr ())"
  by code_simp

end
